theory Spec2Isabelle
  imports Complex_Main "HOL-Library.Sublist"
begin

section \<open>Python values used by the GraphRAG agent\<close>

text \<open>
  The agent of \<^verbatim>\<open>app/graphrag_agent.py\<close> works on Python strings, dictionaries and
  lists. A string is the list of its Unicode code points, each a natural number, so that
  the length of a string and its slices count code points as Python does; \<open>u\<close> turns a
  literal into such a string. A dictionary is an association list in insertion order,
  read with \<^const>\<open>map_of\<close>; the empty dictionary is the empty list. Python floats are
  modelled by real numbers, so float arithmetic is exact here.
\<close>

type_synonym ustring = "nat list"

definition u :: "string \<Rightarrow> ustring" where
  "u s = map of_char s"

type_synonym 'v dict = "(ustring \<times> 'v) list"

definition dict_get :: "'v dict \<Rightarrow> ustring \<Rightarrow> 'v \<Rightarrow> 'v" where
  "dict_get d k dflt = (case map_of d k of None \<Rightarrow> dflt | Some v \<Rightarrow> v)"

datatype exc_kind = AttributeError | TypeError | ValueError | ServiceError

datatype py_error = Exc exc_kind ustring

fun exc_msg :: "py_error \<Rightarrow> ustring" where
  "exc_msg (Exc k m) = m"

subsection \<open>String methods\<close>

text \<open>
  \<^verbatim>\<open>str.isspace\<close> of one code point; \<^verbatim>\<open>strip()\<close> and \<^verbatim>\<open>split()\<close> use the same set:
  U+0009 to U+000D, U+001C to U+0020, U+0085, U+00A0, U+1680, U+2000 to U+200A, U+2028,
  U+2029, U+202F, U+205F and U+3000.
\<close>

definition is_space :: "nat \<Rightarrow> bool" where
  "is_space c =
     ((9 \<le> c \<and> c \<le> 13) \<or> (28 \<le> c \<and> c \<le> 32) \<or> c = 133 \<or> c = 160 \<or> c = 5760
      \<or> (8192 \<le> c \<and> c \<le> 8202) \<or> c = 8232 \<or> c = 8233 \<or> c = 8239 \<or> c = 8287
      \<or> c = 12288)"

text \<open>
  Case mapping. Below U+0100 it is written out: \<^verbatim>\<open>lower()\<close> moves A to Z and U+00C0
  to U+00DE (but not the sign U+00D7) up by 32; \<^verbatim>\<open>upper()\<close> moves a to z and U+00E0 to
  U+00FE (but not U+00F7) down by 32, and sends U+00B5 to U+039C, U+00DF to SS and U+00FF
  to U+0178. From U+0100 on, the mapping is that of Python's Unicode tables, a parameter:
  \<open>lower_wide seen c rest\<close> is what \<^verbatim>\<open>lower()\<close> writes for the code point \<open>c\<close> between
  the code points \<open>seen\<close> and \<open>rest\<close> (the capital sigma depends on them), and
  \<open>upper_wide c\<close> what \<^verbatim>\<open>upper()\<close> writes for \<open>c\<close>.
\<close>

record case_tables =
  lower_wide :: "ustring \<Rightarrow> nat \<Rightarrow> ustring \<Rightarrow> ustring"
  upper_wide :: "nat \<Rightarrow> ustring"

definition lower_latin1 :: "nat \<Rightarrow> nat" where
  "lower_latin1 c =
     (if (65 \<le> c \<and> c \<le> 90) \<or> (192 \<le> c \<and> c \<le> 222 \<and> c \<noteq> 215) then c + 32 else c)"

definition upper_latin1 :: "nat \<Rightarrow> ustring" where
  "upper_latin1 c =
     (if (97 \<le> c \<and> c \<le> 122) \<or> (224 \<le> c \<and> c \<le> 254 \<and> c \<noteq> 247) then [c - 32]
      else if c = 181 then [924]
      else if c = 223 then [83, 83]
      else if c = 255 then [376]
      else [c])"

fun lower_from :: "case_tables \<Rightarrow> ustring \<Rightarrow> ustring \<Rightarrow> ustring" where
  "lower_from T seen [] = []"
| "lower_from T seen (c # rest) =
     (if c < 256 then [lower_latin1 c] else lower_wide T seen c rest)
     @ lower_from T (seen @ [c]) rest"

definition py_lower :: "case_tables \<Rightarrow> ustring \<Rightarrow> ustring" where
  "py_lower T s = lower_from T [] s"

definition upper_cp :: "case_tables \<Rightarrow> nat \<Rightarrow> ustring" where
  "upper_cp T c = (if c < 256 then upper_latin1 c else upper_wide T c)"

definition py_upper :: "case_tables \<Rightarrow> ustring \<Rightarrow> ustring" where
  "py_upper T s = concat (map (upper_cp T) s)"

text \<open>\<^verbatim>\<open>s.replace(c, new)\<close> for a pattern \<^verbatim>\<open>c\<close> of one code point, the only form the agent uses.\<close>

definition py_replace_char :: "nat \<Rightarrow> ustring \<Rightarrow> ustring \<Rightarrow> ustring" where
  "py_replace_char c new s = concat (map (\<lambda>x. if x = c then new else [x]) s)"

text \<open>\<^verbatim>\<open>s.strip()\<close>: white space removed at both ends.\<close>

definition py_strip :: "ustring \<Rightarrow> ustring" where
  "py_strip s = rev (dropWhile is_space (rev (dropWhile is_space s)))"

text \<open>
  \<^verbatim>\<open>s.split()\<close> without arguments: the maximal runs of code points that are not white
  space, in order; \<open>cur\<close> is the run being read.
\<close>

fun split_from :: "ustring \<Rightarrow> ustring \<Rightarrow> ustring list" where
  "split_from cur [] = (if cur = [] then [] else [cur])"
| "split_from cur (c # cs) =
     (if is_space c then (if cur = [] then split_from [] cs else cur # split_from [] cs)
      else split_from (cur @ [c]) cs)"

definition py_split :: "ustring \<Rightarrow> ustring list" where
  "py_split s = split_from [] s"

text \<open>\<^verbatim>\<open>s[:n]\<close> for a non-negative constant \<^verbatim>\<open>n\<close> is \<^term>\<open>take n s\<close>.\<close>

section \<open>Keyword extraction\<close>

definition stopwords :: "ustring set" where
  "stopwords = set (map u [
     ''what'', ''who'', ''where'', ''when'', ''why'', ''how'', ''is'', ''are'', ''was'',
     ''were'', ''the'', ''a'', ''an'', ''and'', ''or'', ''but'', ''in'', ''on'', ''at'',
     ''to'', ''for'', ''of'', ''with'', ''by'', ''about'', ''tell'', ''me'', ''show'',
     ''give'', ''explain'', ''describe'', ''company'', ''companies'', ''stock'',
     ''quel'', ''quelle'', ''quels'', ''quelles'', ''est'', ''sont'', ''le'', ''la'',
     ''les'', ''un'', ''une'', ''des'', ''du'', ''de'', ''et'', ''ou'', ''mais'', ''dans'',
     ''sur'', ''pour'', ''avec'', ''par'', ''entreprise'', ''entreprises''])"

text \<open>The question mark is the code point 63, the comma 44.\<close>

definition extract_keywords :: "case_tables \<Rightarrow> ustring \<Rightarrow> ustring list" where
  "extract_keywords T query =
     (let words = py_split (py_replace_char 44 [] (py_replace_char 63 [] (py_lower T query)))
      in [w \<leftarrow> words. w \<notin> stopwords \<and> length w > 2])"

subsection \<open>The extraction in the words of the specification\<close>

text \<open>
  The tokens of a string: skip white space, take the code points up to the next white
  space, go on behind them.
\<close>

function tokens :: "ustring \<Rightarrow> ustring list" where
  "tokens s =
     (case dropWhile is_space s of
        [] \<Rightarrow> []
      | c # cs \<Rightarrow>
          (c # takeWhile (\<lambda>x. \<not> is_space x) cs) # tokens (dropWhile (\<lambda>x. \<not> is_space x) cs))"
  by pat_completeness auto
termination
proof (relation "measure length")
  show "wf (measure length)" by simp
next
  fix s :: ustring and c cs
  assume d: "dropWhile is_space s = c # cs"
  have "length (dropWhile (\<lambda>x. \<not> is_space x) cs) \<le> length cs"
    by (rule length_dropWhile_le)
  also have "length cs < length (dropWhile is_space s)"
    by (simp add: d)
  also have "length (dropWhile is_space s) \<le> length s"
    by (rule length_dropWhile_le)
  finally show "(dropWhile (\<lambda>x. \<not> is_space x) cs, s) \<in> measure length"
    by simp
qed

declare tokens.simps [simp del]

text \<open>
  Lowercase the question, delete every question mark and comma, split on white space,
  keep the tokens that are no stopwords and longer than 2.
\<close>

definition spec_extract_keywords :: "case_tables \<Rightarrow> ustring \<Rightarrow> ustring list" where
  "spec_extract_keywords T question =
     filter (\<lambda>w. w \<notin> stopwords \<and> 2 < length w)
       (tokens (filter (\<lambda>c. c \<noteq> 63 \<and> c \<noteq> 44) (py_lower T question)))"

section \<open>Stored values\<close>

text \<open>
  The values held by vector-store metadata and by graph properties: strings, integers,
  floats, booleans and (in the graph) time stamps. \<open>truthy\<close> is Python's truth test.
\<close>

datatype pval = VStr ustring | VInt int | VReal real | VBool bool | VTime nat

fun truthy :: "pval \<Rightarrow> bool" where
  "truthy (VStr s) = (s \<noteq> [])"
| "truthy (VInt n) = (n \<noteq> 0)"
| "truthy (VReal r) = (r \<noteq> 0)"
| "truthy (VBool b) = b"
| "truthy (VTime t) = True"

section \<open>Vector search\<close>

text \<open>
  What \<^verbatim>\<open>VectorStoreAgent.search\<close> returns: three lists, one entry per hit. A document,
  a metadata dictionary or a distance may be \<^verbatim>\<open>None\<close>.
\<close>

record search_result =
  documents :: "ustring option list"
  metadatas :: "pval dict option list"
  distances :: "real option list"

record evidence =
  ev_content :: ustring
  ev_metadata :: "pval dict option"
  ev_relevance :: real
  ev_source_type :: ustring

text \<open>\<^verbatim>\<open>doc[:2000] if doc else ""\<close>\<close>

definition content_of_doc :: "ustring option \<Rightarrow> ustring" where
  "content_of_doc doc = (case doc of None \<Rightarrow> [] | Some d \<Rightarrow> if d \<noteq> [] then take 2000 d else [])"

text \<open>\<^verbatim>\<open>1 - dist if dist else 0\<close>: the test is Python's truth test of the distance.\<close>

definition relevance_of_dist :: "real option \<Rightarrow> real" where
  "relevance_of_dist distance = (case distance of None \<Rightarrow> 0 | Some d \<Rightarrow> if d \<noteq> 0 then 1 - d else 0)"

definition make_evidence :: "ustring option \<times> pval dict option \<times> real option \<Rightarrow> evidence" where
  "make_evidence hit =
     (case hit of (doc, meta, distance) \<Rightarrow>
        \<lparr>ev_content = content_of_doc doc, ev_metadata = meta,
         ev_relevance = relevance_of_dist distance, ev_source_type = u ''vector''\<rparr>)"

text \<open>The vector store is a parameter: \<open>search query n_results\<close> returns its hits or raises.\<close>

definition vector_search :: "(ustring \<Rightarrow> int \<Rightarrow> py_error + search_result) \<Rightarrow> ustring \<Rightarrow> int \<Rightarrow> evidence list" where
  "vector_search search query n_results =
     (case search query n_results of
        Inl e \<Rightarrow> []
      | Inr results \<Rightarrow>
          map make_evidence (zip (documents results) (zip (metadatas results) (distances results))))"

section \<open>Answer synthesis\<close>

record citation =
  cit_source :: pval
  cit_section :: pval
  cit_url :: pval
  cit_relevance :: real

text \<open>\<^verbatim>\<open>round(x, 3)\<close> on the reals: to the nearest multiple of 1/1000, a tie to the even one.\<close>

definition round_half_even :: "real \<Rightarrow> int" where
  "round_half_even y =
     (let f = \<lfloor>y\<rfloor>; d = y - of_int f
      in if d < 1 / 2 then f else if 1 / 2 < d then f + 1 else if even f then f else f + 1)"

definition py_round3 :: "real \<Rightarrow> real" where
  "py_round3 x = of_int (round_half_even (x * 1000)) / 1000"

definition make_citation :: "evidence \<Rightarrow> pval dict \<Rightarrow> citation" where
  "make_citation ctx meta =
     \<lparr>cit_source = dict_get meta (u ''ticker'') (VStr (u ''Unknown'')),
      cit_section = dict_get meta (u ''section'') (VStr (u ''document'')),
      cit_url = dict_get meta (u ''url'') (VStr []),
      cit_relevance = py_round3 (ev_relevance ctx)\<rparr>"

text \<open>The citation loop; \<open>citations\<close> is the list built so far.\<close>

fun collect_citations :: "evidence list \<Rightarrow> citation list \<Rightarrow> citation list" where
  "collect_citations [] citations = citations"
| "collect_citations (ctx # rest) citations =
     (case ev_metadata ctx of
        None \<Rightarrow> collect_citations rest citations
      | Some meta \<Rightarrow>
          if meta \<noteq> [] then collect_citations rest (citations @ [make_citation ctx meta])
          else collect_citations rest citations)"

text \<open>The line feed is the code point 10.\<close>

definition nl :: ustring where
  "nl = [10]"

definition refusal :: ustring where
  "refusal = u ''I don't have enough information to answer this question. Please ingest some documents first.''"

definition build_prompt :: "ustring \<Rightarrow> ustring \<Rightarrow> ustring" where
  "build_prompt question context =
     u ''You are a helpful assistant answering questions based on the provided context.'' @ nl @
     u ''Use ONLY the information from the context below to answer. If the context doesn't contain'' @ nl @
     u ''enough information, say so clearly.'' @ nl @ nl @
     u ''CONTEXT:'' @ nl @
     take 6000 context @ nl @ nl @
     u ''QUESTION: '' @ question @ nl @ nl @
     u ''Instructions:'' @ nl @
     u ''1. Answer the question directly and concisely'' @ nl @
     u ''2. Reference specific sources when possible (e.g., '' @ [34] @
       u ''According to [Source 1]...'' @ [34] @ u '')'' @ nl @
     u ''3. If multiple sources agree, mention that'' @ nl @
     u ''4. If you're uncertain, express that uncertainty'' @ nl @
     u ''5. Keep the answer focused and relevant'' @ nl @ nl @
     u ''ANSWER:''"

text \<open>
  The generative model is a parameter: \<open>generate model prompt\<close> returns the text of the
  response or raises. The second component of the result lists the calls made to it.
\<close>

type_synonym llm = "ustring \<Rightarrow> ustring \<Rightarrow> py_error + ustring"

definition generate_answer ::
  "llm \<Rightarrow> ustring \<Rightarrow> ustring \<Rightarrow> ustring \<Rightarrow> evidence list \<Rightarrow> (ustring \<times> citation list) \<times> (ustring \<times> ustring) list" where
  "generate_answer generate llm_model question context vector_results =
     (if py_strip context = [] then ((refusal, []), [])
      else
        (let prompt = build_prompt question context
         in case generate llm_model prompt of
              Inl e \<Rightarrow> ((u ''Error generating answer: '' @ exc_msg e, []), [(llm_model, prompt)])
            | Inr response \<Rightarrow>
                ((py_strip response, collect_citations vector_results []), [(llm_model, prompt)])))"

text \<open>An evidence item counts for a citation when its metadata is a non-empty dictionary.\<close>

definition has_metadata :: "evidence \<Rightarrow> bool" where
  "has_metadata e = (case ev_metadata e of None \<Rightarrow> False | Some m \<Rightarrow> m \<noteq> [])"

subsection \<open>Sample generators and evidence\<close>

definition failing_llm :: llm where
  "failing_llm llm_model prompt = Inl (Exc ServiceError (u ''connection refused''))"

definition echo_llm :: llm where
  "echo_llm llm_model prompt = Inr (u '' According to [Source 1], regulation is a risk. '')"

definition meta_hit :: evidence where
  "meta_hit = \<lparr>ev_content = u ''Risk factors: regulation.'',
               ev_metadata = Some [(u ''ticker'', VStr (u ''META'')), (u ''section'', VStr (u ''risk_factors''))],
               ev_relevance = 9 / 10, ev_source_type = u ''vector''\<rparr>"

text \<open>Case tables that leave the code points from U+0100 on as they are.\<close>

definition plain_tables :: case_tables where
  "plain_tables = \<lparr>lower_wide = (\<lambda>seen c rest. [c]), upper_wide = (\<lambda>c. [c])\<rparr>"

section \<open>Context assembly\<close>

record entity =
  ent_type :: ustring
  ent_data :: "pval dict"
  ent_source_type :: ustring

text \<open>
  Rendering of values inside f-strings. How Python prints a float or a time stamp, and
  the format \<^verbatim>\<open>,.0f\<close> of a number, are parameters.
\<close>

record formatter =
  float_repr :: "real \<Rightarrow> ustring"
  time_repr :: "nat \<Rightarrow> ustring"
  money_fmt :: "real \<Rightarrow> ustring"

text \<open>Decimal digits: the digit \<open>d\<close> is the code point \<open>48 + d\<close>; the minus sign is 45.\<close>

fun show_nat :: "nat \<Rightarrow> ustring" where
  "show_nat n = (if n < 10 then [48 + n] else show_nat (n div 10) @ [48 + n mod 10])"

declare show_nat.simps [simp del]

definition show_int :: "int \<Rightarrow> ustring" where
  "show_int i = (if i < 0 then 45 # show_nat (nat (- i)) else show_nat (nat i))"

definition py_str :: "formatter \<Rightarrow> pval \<Rightarrow> ustring" where
  "py_str fm v =
     (case v of
        VStr s \<Rightarrow> s
      | VInt i \<Rightarrow> show_int i
      | VReal r \<Rightarrow> float_repr fm r
      | VBool b \<Rightarrow> (if b then (u ''True'') else (u ''False''))
      | VTime t \<Rightarrow> time_repr fm t)"

text \<open>\<^verbatim>\<open>f"{x:,.0f}"\<close>: a string has no such format, a time stamp neither.\<close>

definition py_money :: "formatter \<Rightarrow> pval \<Rightarrow> py_error + ustring" where
  "py_money fm v =
     (case v of
        VStr s \<Rightarrow> Inl (Exc ValueError (u ''Unknown format code f for object of type str''))
      | VInt i \<Rightarrow> Inr (money_fmt fm (of_int i))
      | VReal r \<Rightarrow> Inr (money_fmt fm r)
      | VBool b \<Rightarrow> Inr (money_fmt fm (if b then 1 else 0))
      | VTime t \<Rightarrow> Inl (Exc TypeError (u ''unsupported format string'')))"

text \<open>\<^verbatim>\<open>"\n".join(parts)\<close>\<close>

fun py_join :: "ustring \<Rightarrow> ustring list \<Rightarrow> ustring" where
  "py_join sep [] = []"
| "py_join sep [p] = p"
| "py_join sep (p # q # ps) = p @ sep @ py_join sep (q # ps)"

text \<open>
  The loop over the vector evidence, \<open>i\<close> counting from 1. Reading the ticker of a
  metadata that is \<^verbatim>\<open>None\<close> raises.
\<close>

fun vector_parts :: "formatter \<Rightarrow> nat \<Rightarrow> evidence list \<Rightarrow> py_error + ustring list" where
  "vector_parts fm i [] = Inr []"
| "vector_parts fm i (ctx # rest) =
     (case ev_metadata ctx of
        None \<Rightarrow> Inl (Exc AttributeError (u ''NoneType object has no attribute get''))
      | Some meta \<Rightarrow>
          (let source = dict_get meta (u ''ticker'') (dict_get meta (u ''section'') (VStr (u ''unknown'')))
           in case vector_parts fm (Suc i) rest of
                Inl e \<Rightarrow> Inl e
              | Inr ps \<Rightarrow>
                  Inr ((nl @ (u ''[Source '') @ show_nat i @ (u '': '') @ py_str fm source @ (u '']''))
                       # take 1500 (ev_content ctx) # ps)))"

text \<open>\<^verbatim>\<open>data.get('description', '')[:500]\<close>, under the truth test of the description.\<close>

definition description_part :: "pval dict \<Rightarrow> py_error + ustring list" where
  "description_part data =
     (case map_of data (u ''description'') of
        None \<Rightarrow> Inr []
      | Some v \<Rightarrow>
          if truthy v then
            (case v of
               VStr s \<Rightarrow> Inr [(u ''  Description: '') @ take 500 s]
             | _ \<Rightarrow> Inl (Exc TypeError (u ''object is not subscriptable'')))
          else Inr [])"

definition money_part :: "formatter \<Rightarrow> ustring \<Rightarrow> pval dict \<Rightarrow> ustring \<Rightarrow> py_error + ustring list" where
  "money_part fm label data key =
     (case map_of data key of
        None \<Rightarrow> Inr []
      | Some v \<Rightarrow>
          if truthy v then
            (case py_money fm v of Inl e \<Rightarrow> Inl e | Inr s \<Rightarrow> Inr [label @ s])
          else Inr [])"

definition company_parts :: "formatter \<Rightarrow> pval dict \<Rightarrow> py_error + ustring list" where
  "company_parts fm data =
     (case description_part data of
        Inl e \<Rightarrow> Inl e
      | Inr d \<Rightarrow>
          (case money_part fm (u ''  Market Cap: $'') data (u ''market_cap'') of
             Inl e \<Rightarrow> Inl e
           | Inr m \<Rightarrow>
               (case money_part fm (u ''  Revenue: $'') data (u ''revenue'') of
                  Inl e \<Rightarrow> Inl e
                | Inr r \<Rightarrow>
                    Inr ([nl @ (u ''Company: '') @ py_str fm (dict_get data (u ''name'') (VStr (u ''N/A''))),
                          (u ''  Ticker: '') @ py_str fm (dict_get data (u ''ticker'') (VStr (u ''N/A''))),
                          (u ''  Sector: '') @ py_str fm (dict_get data (u ''sector'') (VStr (u ''N/A''))),
                          (u ''  Industry: '') @ py_str fm (dict_get data (u ''industry'') (VStr (u ''N/A'')))]
                         @ d @ m @ r))))"

fun graph_parts :: "formatter \<Rightarrow> entity list \<Rightarrow> py_error + ustring list" where
  "graph_parts fm [] = Inr []"
| "graph_parts fm (entity # rest) =
     (if ent_type entity = (u ''Company'') then
        (case company_parts fm (ent_data entity) of
           Inl e \<Rightarrow> Inl e
         | Inr ps \<Rightarrow> (case graph_parts fm rest of Inl e \<Rightarrow> Inl e | Inr qs \<Rightarrow> Inr (ps @ qs)))
      else graph_parts fm rest)"

text \<open>The list \<^verbatim>\<open>parts\<close> of \<^verbatim>\<open>_build_context\<close>, and the context joined from it.\<close>

definition context_parts :: "formatter \<Rightarrow> evidence list \<Rightarrow> entity list \<Rightarrow> py_error + ustring list" where
  "context_parts fm vector_context graph_context =
     (case (if vector_context \<noteq> [] then
              (case vector_parts fm 1 vector_context of
                 Inl e \<Rightarrow> Inl e
               | Inr ps \<Rightarrow> Inr ((u ''=== DOCUMENT CONTEXT ==='') # ps))
            else Inr []) of
        Inl e \<Rightarrow> Inl e
      | Inr vp \<Rightarrow>
          (case (if graph_context \<noteq> [] then
                   (case graph_parts fm (take 5 graph_context) of
                      Inl e \<Rightarrow> Inl e
                    | Inr ps \<Rightarrow> Inr ((nl @ nl @ (u ''=== KNOWLEDGE GRAPH CONTEXT ==='')) # ps))
                 else Inr []) of
             Inl e \<Rightarrow> Inl e
           | Inr gp \<Rightarrow> Inr (vp @ gp)))"

definition build_context :: "formatter \<Rightarrow> evidence list \<Rightarrow> entity list \<Rightarrow> py_error + ustring" where
  "build_context fm vector_context graph_context =
     (case context_parts fm vector_context graph_context of
        Inl e \<Rightarrow> Inl e
      | Inr parts \<Rightarrow> Inr (py_join nl parts))"

definition sample_formatter :: formatter where
  "sample_formatter = \<lparr>float_repr = (\<lambda>r. (u ''0.0'')), time_repr = (\<lambda>t. (u ''2024-01-01'')), money_fmt = (\<lambda>r. (u ''0''))\<rparr>"

definition long_hit :: evidence where
  "long_hit = make_evidence (Some (replicate 5000 120), Some [(u ''ticker'', VStr (u ''META''))], Some (1 / 10))"

section \<open>Graph search\<close>

text \<open>
  A row of the one-hop query: the relationship type, the first label of the target node
  and its name, the last two \<^verbatim>\<open>null\<close> when the target has none.
\<close>

record path_row =
  row_relation :: ustring
  row_target_type :: "ustring option"
  row_target_name :: "pval option"

record graph_path =
  gp_source :: pval
  gp_relation :: ustring
  gp_target_type :: "ustring option"
  gp_target :: "pval option"

text \<open>
  The graph store is a parameter with a state \<open>'s\<close> of its own, so that the same
  operation may succeed once and raise later. \<open>company_matches keyword\<close> gives the
  properties of the Company nodes whose name, ticker, sector or industry contains the
  keyword, \<open>outgoing_relations ticker\<close> the relationships that leave the Company nodes
  with that ticker, both in the store's order and before any \<^verbatim>\<open>LIMIT\<close>.
\<close>

record 's graph_driver =
  open_session :: "'s \<Rightarrow> py_error option \<times> 's"
  company_matches :: "ustring \<Rightarrow> 's \<Rightarrow> (py_error + pval dict list) \<times> 's"
  outgoing_relations :: "pval \<Rightarrow> 's \<Rightarrow> (py_error + path_row list) \<times> 's"
  close_session :: "'s \<Rightarrow> py_error option \<times> 's"

text \<open>The operations asked of the store, each logged with whether it raised.\<close>

datatype store_call = OpenSession | CompanyQuery ustring | PathQuery pval | CloseSession

type_synonym call_log = "(store_call \<times> bool) list"

fun path_calls :: "call_log \<Rightarrow> pval list" where
  "path_calls [] = []"
| "path_calls ((PathQuery t, raised) # rest) = t # path_calls rest"
| "path_calls (other # rest) = path_calls rest"

text \<open>The keyword query, with its \<^verbatim>\<open>LIMIT 3\<close>, and the path query, with its \<^verbatim>\<open>LIMIT 10\<close>.\<close>

definition company_query :: "'s graph_driver \<Rightarrow> ustring \<Rightarrow> 's \<Rightarrow> (py_error + pval dict list) \<times> 's" where
  "company_query drv keyword s =
     (case company_matches drv keyword s of
        (Inl e, s') \<Rightarrow> (Inl e, s')
      | (Inr rows, s') \<Rightarrow> (Inr (take 3 rows), s'))"

definition path_query :: "'s graph_driver \<Rightarrow> pval \<Rightarrow> 's \<Rightarrow> (py_error + path_row list) \<times> 's" where
  "path_query drv ticker s =
     (case outgoing_relations drv ticker s of
        (Inl e, s') \<Rightarrow> (Inl e, s')
      | (Inr rows, s') \<Rightarrow> (Inr (take 10 rows), s'))"

definition company_entity :: "pval dict \<Rightarrow> entity" where
  "company_entity company = \<lparr>ent_type = (u ''Company''), ent_data = company, ent_source_type = (u ''graph'')\<rparr>"

definition make_path :: "pval \<Rightarrow> path_row \<Rightarrow> graph_path" where
  "make_path ticker row =
     \<lparr>gp_source = ticker, gp_relation = row_relation row,
      gp_target_type = row_target_type row, gp_target = row_target_name row\<rparr>"

text \<open>The loop over the keywords; \<open>entities\<close> is the list built so far.\<close>

fun probe_keywords ::
  "'s graph_driver \<Rightarrow> ustring list \<Rightarrow> entity list \<Rightarrow> 's \<Rightarrow> (py_error + entity list) \<times> call_log \<times> 's" where
  "probe_keywords drv [] entities s = (Inr entities, [], s)"
| "probe_keywords drv (keyword # rest) entities s =
     (case company_query drv keyword s of
        (Inl e, s') \<Rightarrow> (Inl e, [(CompanyQuery keyword, True)], s')
      | (Inr rows, s') \<Rightarrow>
          (case probe_keywords drv rest (entities @ map company_entity rows) s' of
             (r, calls, s2) \<Rightarrow> (r, (CompanyQuery keyword, False) # calls, s2)))"

text \<open>The relations of the first entity, fetched when its ticker passes the truth test.\<close>

definition expand_first ::
  "'s graph_driver \<Rightarrow> entity list \<Rightarrow> 's \<Rightarrow> (py_error + graph_path list) \<times> call_log \<times> 's" where
  "expand_first drv entities s =
     (case entities of
        [] \<Rightarrow> (Inr [], [], s)
      | first # others \<Rightarrow>
          (case map_of (ent_data first) (u ''ticker'') of
             None \<Rightarrow> (Inr [], [], s)
           | Some ticker \<Rightarrow>
               if truthy ticker then
                 (case path_query drv ticker s of
                    (Inl e, s') \<Rightarrow> (Inl e, [(PathQuery ticker, True)], s')
                  | (Inr rows, s') \<Rightarrow> (Inr (map (make_path ticker) rows), [(PathQuery ticker, False)], s'))
               else (Inr [], [], s)))"

text \<open>The key that is expanded: the ticker of the first entity, when it passes the truth test.\<close>

definition first_ticker :: "entity list \<Rightarrow> pval option" where
  "first_ticker entities =
     (case entities of
        [] \<Rightarrow> None
      | first # others \<Rightarrow>
          (case map_of (ent_data first) (u ''ticker'') of
             None \<Rightarrow> None
           | Some t \<Rightarrow> if truthy t then Some t else None))"

text \<open>The body of the \<^verbatim>\<open>with\<close> block.\<close>

definition search_body ::
  "case_tables \<Rightarrow> 's graph_driver \<Rightarrow> ustring \<Rightarrow> 's \<Rightarrow> (py_error + entity list \<times> graph_path list) \<times> call_log \<times> 's" where
  "search_body T drv query s =
     (case probe_keywords drv (take 5 (extract_keywords T query)) [] s of
        (Inl e, calls, s') \<Rightarrow> (Inl e, calls, s')
      | (Inr entities, calls, s') \<Rightarrow>
          (case expand_first drv entities s' of
             (Inl e, calls', s2) \<Rightarrow> (Inl e, calls @ calls', s2)
           | (Inr paths, calls', s2) \<Rightarrow> (Inr (entities, paths), calls @ calls', s2)))"

text \<open>
  \<^verbatim>\<open>_graph_search\<close>: no driver, no search; an error of the session, of a query or of
  closing the session is caught and gives two empty lists.
\<close>

definition graph_search ::
  "case_tables \<Rightarrow> 's graph_driver option \<Rightarrow> ustring \<Rightarrow> 's \<Rightarrow> (entity list \<times> graph_path list) \<times> call_log \<times> 's" where
  "graph_search T driver query s =
     (case driver of
        None \<Rightarrow> (([], []), [], s)
      | Some drv \<Rightarrow>
          (case open_session drv s of
             (Some e, s1) \<Rightarrow> (([], []), [(OpenSession, True)], s1)
           | (None, s1) \<Rightarrow>
               (case search_body T drv query s1 of
                  (r, calls, s2) \<Rightarrow>
                    (case close_session drv s2 of
                       (closing, s3) \<Rightarrow>
                         ((case r of
                             Inl e \<Rightarrow> ([], [])
                           | Inr found \<Rightarrow> (if closing = None then found else ([], []))),
                          (OpenSession, False) # calls @ [(CloseSession, closing \<noteq> None)],
                          s3)))))"

subsection \<open>A sample store\<close>

text \<open>
  A store that counts its queries: the keyword \<open>acme\<close> matches a company without ticker,
  \<open>meta\<close> one with the ticker META, the query for \<open>boom\<close> raises; the company META has
  twelve suppliers.
\<close>

definition acme_node :: "pval dict" where
  "acme_node = [(u ''name'', VStr (u ''Acme Corp'')), (u ''sector'', VStr (u ''Industrials''))]"

definition meta_node :: "pval dict" where
  "meta_node = [(u ''name'', VStr (u ''Meta Platforms'')), (u ''ticker'', VStr (u ''META'')),
                (u ''sector'', VStr (u ''Technology''))]"

definition supplier_row :: path_row where
  "supplier_row = \<lparr>row_relation = (u ''SUPPLIES''), row_target_type = Some (u ''Company''), row_target_name = Some (VStr (u ''Supplier''))\<rparr>"

definition sample_driver :: "nat graph_driver" where
  "sample_driver =
     \<lparr>open_session = (\<lambda>s. (None, s)),
      company_matches = (\<lambda>keyword s.
         (if keyword = (u ''acme'') then Inr [acme_node]
          else if keyword = (u ''meta'') then Inr [meta_node]
          else if keyword = (u ''boom'') then Inl (Exc ServiceError (u ''connection lost''))
          else Inr [], Suc s)),
      outgoing_relations = (\<lambda>ticker s.
         (if ticker = VStr (u ''META'') then Inr (replicate 12 supplier_row) else Inr [], Suc s)),
      close_session = (\<lambda>s. (None, s))\<rparr>"

section \<open>Ingestion of entities and relations\<close>

text \<open>
  The extraction results, as dictionaries read with \<^verbatim>\<open>get\<close>. A name, a type or a
  source is a string, \<open>None\<close> when the key is absent (for a name also when its value is
  \<^verbatim>\<open>null\<close>, which fails the same truth test). The label of a relation is absent, a
  string, or another JSON value (\<^verbatim>\<open>null\<close>, a number, a list), which has no
  \<^verbatim>\<open>upper()\<close>.
\<close>

record entity_rec =
  er_name :: "ustring option"
  er_type :: "ustring option"

datatype label_field = NoLabel | LabelStr ustring | LabelOther

record relation_rec =
  rr_source :: "ustring option"
  rr_relation :: label_field
  rr_target :: "ustring option"

record extraction =
  ex_source :: "ustring option"
  ex_entities :: "entity_rec list option"
  ex_relations :: "relation_rec list option"

subsection \<open>The graph store and its two upserts\<close>

text \<open>
  The store holds nodes with labels and properties and directed edges between node
  positions; its clock gives the value of \<^verbatim>\<open>datetime()\<close>. The two statements the agent
  sends are Cypher \<^verbatim>\<open>MERGE\<close>s: match, or create when nothing matches, then \<^verbatim>\<open>SET\<close>.
\<close>

record gnode =
  n_labels :: "ustring list"
  n_props :: "pval dict"

record gedge =
  e_from :: nat
  e_type :: ustring
  e_to :: nat
  e_props :: "pval dict"

record graph_db =
  db_nodes :: "gnode list"
  db_edges :: "gedge list"
  db_clock :: nat

fun dict_set :: "'v dict \<Rightarrow> ustring \<Rightarrow> 'v \<Rightarrow> 'v dict" where
  "dict_set [] k v = [(k, v)]"
| "dict_set ((k', v') # d) k v = (if k' = k then (k, v) # d else (k', v') # dict_set d k v)"

definition node_named :: "ustring \<Rightarrow> gnode \<Rightarrow> bool" where
  "node_named name n = (map_of (n_props n) (u ''name'') = Some (VStr name))"

definition node_keyed :: "ustring \<Rightarrow> ustring \<Rightarrow> gnode \<Rightarrow> bool" where
  "node_keyed label name n = (label \<in> set (n_labels n) \<and> node_named name n)"

definition stamp_node :: "ustring \<Rightarrow> nat \<Rightarrow> gnode \<Rightarrow> gnode" where
  "stamp_node source now n =
     n\<lparr>n_props := dict_set (dict_set (n_props n) (u ''source'') (VStr source)) (u ''updated_at'') (VTime now)\<rparr>"

text \<open>\<^verbatim>\<open>MERGE (e:label {name: $name}) SET e.source = $source, e.updated_at = datetime()\<close>\<close>

definition merge_node :: "ustring \<Rightarrow> ustring \<Rightarrow> ustring \<Rightarrow> graph_db \<Rightarrow> graph_db" where
  "merge_node label name source db =
     (let now = db_clock db
      in if filter (node_keyed label name) (db_nodes db) \<noteq> [] then
           db\<lparr>db_nodes := map (\<lambda>n. if node_keyed label name n then stamp_node source now n else n) (db_nodes db),
              db_clock := Suc now\<rparr>
         else
           db\<lparr>db_nodes := db_nodes db @ [stamp_node source now \<lparr>n_labels = [label], n_props = [(u ''name'', VStr name)]\<rparr>],
              db_clock := Suc now\<rparr>)"

definition name_ids :: "ustring \<Rightarrow> graph_db \<Rightarrow> nat list" where
  "name_ids name db = [i \<leftarrow> [0..<length (db_nodes db)]. node_named name (db_nodes db ! i)]"

definition edge_between :: "nat \<Rightarrow> ustring \<Rightarrow> nat \<Rightarrow> gedge \<Rightarrow> bool" where
  "edge_between i rtype j e = (e_from e = i \<and> e_type e = rtype \<and> e_to e = j)"

definition merge_edge :: "nat \<Rightarrow> ustring \<Rightarrow> nat \<times> nat \<Rightarrow> gedge list \<Rightarrow> gedge list" where
  "merge_edge now rtype ends es =
     (case ends of (i, j) \<Rightarrow>
        if filter (edge_between i rtype j) es \<noteq> [] then
          map (\<lambda>e. if edge_between i rtype j e
                    then e\<lparr>e_props := dict_set (e_props e) (u ''updated_at'') (VTime now)\<rparr> else e) es
        else es @ [\<lparr>e_from = i, e_type = rtype, e_to = j, e_props = [(u ''updated_at'', VTime now)]\<rparr>])"

text \<open>
  \<^verbatim>\<open>MATCH (s {name: $source}) MATCH (t {name: $target}) MERGE (s)-[r:rtype]->(t)
  SET r.updated_at = datetime()\<close>: one merge for each pair of a node named as the source
  and a node named as the target, whatever their labels; none when a name matches no node.
\<close>

definition merge_relation :: "ustring \<Rightarrow> ustring \<Rightarrow> ustring \<Rightarrow> graph_db \<Rightarrow> graph_db" where
  "merge_relation source rtype target db =
     db\<lparr>db_edges := fold (merge_edge (db_clock db) rtype)
                       (List.product (name_ids source db) (name_ids target db)) (db_edges db),
        db_clock := Suc (db_clock db)\<rparr>"

datatype statement = MergeNode ustring ustring ustring | MergeRelation ustring ustring ustring

fun execute :: "statement \<Rightarrow> graph_db \<Rightarrow> graph_db" where
  "execute (MergeNode label name source) db = merge_node label name source db"
| "execute (MergeRelation source rtype target) db = merge_relation source rtype target db"

text \<open>
  The driver of the write path: the store, whether opening or closing a session raises,
  and which statements the store rejects in which state (a label that is no identifier,
  a lost connection). A rejected statement changes nothing.
\<close>

record graph_writer =
  gw_db :: graph_db
  gw_open_error :: "py_error option"
  gw_close_error :: "py_error option"
  gw_rejects :: "statement \<Rightarrow> graph_db \<Rightarrow> bool"

definition session_run :: "graph_writer \<Rightarrow> statement \<Rightarrow> graph_db \<Rightarrow> py_error + graph_db" where
  "session_run w stmt db =
     (if gw_rejects w stmt db then Inl (Exc ServiceError (u ''statement rejected''))
      else Inr (execute stmt db))"


subsection \<open>The ingestor\<close>

record ingest_state =
  st_db :: graph_db
  added_entities :: nat
  added_relations :: nat
  st_issued :: "statement list"

definition add_entity :: "graph_writer \<Rightarrow> ustring \<Rightarrow> ingest_state \<Rightarrow> entity_rec \<Rightarrow> ingest_state" where
  "add_entity w source st entity =
     (let entity_type = (case er_type entity of None \<Rightarrow> u ''Entity'' | Some t \<Rightarrow> t);
          entity_name = (case er_name entity of None \<Rightarrow> [] | Some n \<Rightarrow> n)
      in if entity_name = [] then st
         else
           (let stmt = MergeNode entity_type entity_name source
            in case session_run w stmt (st_db st) of
                 Inl e \<Rightarrow> st\<lparr>st_issued := st_issued st @ [stmt]\<rparr>
               | Inr db' \<Rightarrow>
                   st\<lparr>st_db := db', added_entities := Suc (added_entities st),
                      st_issued := st_issued st @ [stmt]\<rparr>))"

text \<open>\<^verbatim>\<open>relation_type.upper().replace(" ", "_")\<close>: the space is the code point 32, the underscore 95.\<close>

definition sanitize :: "case_tables \<Rightarrow> ustring \<Rightarrow> ustring" where
  "sanitize T relation_type = py_replace_char 32 [95] (py_upper T relation_type)"

text \<open>
  One relation. The label is sanitized after the test of the names and outside the
  \<^verbatim>\<open>try\<close>: a label that is no string raises there, and the error leaves the loops. The
  result is that error, if any, and the state reached.
\<close>

definition add_relation ::
  "case_tables \<Rightarrow> graph_writer \<Rightarrow> ingest_state \<Rightarrow> relation_rec \<Rightarrow> py_error option \<times> ingest_state" where
  "add_relation T w st rel =
     (let source_name = (case rr_source rel of None \<Rightarrow> [] | Some n \<Rightarrow> n);
          target_name = (case rr_target rel of None \<Rightarrow> [] | Some n \<Rightarrow> n)
      in if source_name = [] \<or> target_name = [] then (None, st)
         else
           (case rr_relation rel of
              LabelOther \<Rightarrow> (Some (Exc AttributeError (u ''object has no attribute upper'')), st)
            | NoLabel \<Rightarrow>
                (let stmt = MergeRelation source_name (sanitize T (u ''RELATED_TO'')) target_name
                 in case session_run w stmt (st_db st) of
                      Inl e \<Rightarrow> (None, st\<lparr>st_issued := st_issued st @ [stmt]\<rparr>)
                    | Inr db' \<Rightarrow>
                        (None, st\<lparr>st_db := db', added_relations := Suc (added_relations st),
                                  st_issued := st_issued st @ [stmt]\<rparr>))
            | LabelStr relation_type \<Rightarrow>
                (let stmt = MergeRelation source_name (sanitize T relation_type) target_name
                 in case session_run w stmt (st_db st) of
                      Inl e \<Rightarrow> (None, st\<lparr>st_issued := st_issued st @ [stmt]\<rparr>)
                    | Inr db' \<Rightarrow>
                        (None, st\<lparr>st_db := db', added_relations := Suc (added_relations st),
                                  st_issued := st_issued st @ [stmt]\<rparr>))))"

fun add_relations ::
  "case_tables \<Rightarrow> graph_writer \<Rightarrow> ingest_state \<Rightarrow> relation_rec list \<Rightarrow> py_error option \<times> ingest_state" where
  "add_relations T w st [] = (None, st)"
| "add_relations T w st (rel # rest) =
     (case add_relation T w st rel of
        (Some e, st') \<Rightarrow> (Some e, st')
      | (None, st') \<Rightarrow> add_relations T w st' rest)"

definition add_extraction ::
  "case_tables \<Rightarrow> graph_writer \<Rightarrow> ingest_state \<Rightarrow> extraction \<Rightarrow> py_error option \<times> ingest_state" where
  "add_extraction T w st result =
     (let source = (case ex_source result of None \<Rightarrow> u ''unknown'' | Some s \<Rightarrow> s);
          st1 = foldl (add_entity w source) st (case ex_entities result of None \<Rightarrow> [] | Some es \<Rightarrow> es)
      in add_relations T w st1 (case ex_relations result of None \<Rightarrow> [] | Some rs \<Rightarrow> rs))"

fun add_extractions ::
  "case_tables \<Rightarrow> graph_writer \<Rightarrow> ingest_state \<Rightarrow> extraction list \<Rightarrow> py_error option \<times> ingest_state" where
  "add_extractions T w st [] = (None, st)"
| "add_extractions T w st (result # rest) =
     (case add_extraction T w st result of
        (Some e, st') \<Rightarrow> (Some e, st')
      | (None, st') \<Rightarrow> add_extractions T w st' rest)"

datatype ingest_result = NotConnected ustring | Added nat nat

text \<open>
  \<^verbatim>\<open>add_entities_to_graph\<close>: the outcome, the store afterwards and the statements sent,
  in order. An error of the session or of a label leaves the function (\<open>Inl\<close>), the
  error of closing the session first. \<open>Added e r\<close> stands for the dictionary of
  \<^verbatim>\<open>entities_added\<close> and \<^verbatim>\<open>relations_added\<close>.
\<close>

definition add_entities_to_graph ::
  "case_tables \<Rightarrow> graph_writer option \<Rightarrow> extraction list \<Rightarrow>
     (py_error + ingest_result) \<times> graph_db option \<times> statement list" where
  "add_entities_to_graph T driver extraction_results =
     (case driver of
        None \<Rightarrow> (Inr (NotConnected (u ''Neo4j non connect'' @ [233])), None, [])
      | Some w \<Rightarrow>
          (case gw_open_error w of
             Some e \<Rightarrow> (Inl e, Some (gw_db w), [])
           | None \<Rightarrow>
               (case add_extractions T w
                       \<lparr>st_db = gw_db w, added_entities = 0, added_relations = 0, st_issued = []\<rparr>
                       extraction_results of
                  (raised, st) \<Rightarrow>
                    ((case gw_close_error w of
                        Some e \<Rightarrow> Inl e
                      | None \<Rightarrow>
                          (case raised of
                             Some e \<Rightarrow> Inl e
                           | None \<Rightarrow> Inr (Added (added_entities st) (added_relations st)))),
                     Some (st_db st), st_issued st))))"






subsection \<open>Sample extractions\<close>

definition empty_db :: graph_db where
  "empty_db = \<lparr>db_nodes = [], db_edges = [], db_clock = 0\<rparr>"

definition strict_writer :: "graph_db \<Rightarrow> graph_writer" where
  "strict_writer db =
     \<lparr>gw_db = db, gw_open_error = None, gw_close_error = None,
      gw_rejects = (\<lambda>stmt db'. case stmt of
                      MergeNode label name source \<Rightarrow> label = [] \<or> 32 \<in> set label
                    | MergeRelation source rtype target \<Rightarrow> rtype = [])\<rparr>"

definition single_entity :: "ustring \<Rightarrow> ustring \<Rightarrow> ustring \<Rightarrow> extraction" where
  "single_entity source entity_type name =
     \<lparr>ex_source = Some source,
      ex_entities = Some [\<lparr>er_name = Some name, er_type = Some entity_type\<rparr>],
      ex_relations = None\<rparr>"



section \<open>Properties of keyword extraction\<close>

lemma replace_char_delete: "py_replace_char c [] s = filter (\<lambda>x. x \<noteq> c) s"
  by (induction s) (simp_all add: py_replace_char_def)

lemma tokens_Nil: "tokens [] = []"
  by (simp add: tokens.simps)

lemma tokens_space: "is_space c \<Longrightarrow> tokens (c # cs) = tokens cs"
  by (simp add: tokens.simps [of "c # cs"] tokens.simps [of cs])

lemma tokens_word:
  "\<not> is_space c \<Longrightarrow>
     tokens (c # cs) = (c # takeWhile (\<lambda>x. \<not> is_space x) cs) # tokens (dropWhile (\<lambda>x. \<not> is_space x) cs)"
  by (simp add: tokens.simps [of "c # cs"])

lemma tokens_unfold:
  "tokens s =
     (if takeWhile (\<lambda>x. \<not> is_space x) s = [] then [] else [takeWhile (\<lambda>x. \<not> is_space x) s])
     @ tokens (dropWhile (\<lambda>x. \<not> is_space x) s)"
  by (cases s) (simp_all add: tokens_word)

lemma split_from_tokens:
  "split_from cur s =
     (if cur @ takeWhile (\<lambda>x. \<not> is_space x) s = [] then []
      else [cur @ takeWhile (\<lambda>x. \<not> is_space x) s])
     @ tokens (dropWhile (\<lambda>x. \<not> is_space x) s)"
proof (induction s arbitrary: cur)
  case Nil
  then show ?case by (simp add: tokens_Nil)
next
  case (Cons c cs)
  show ?case
  proof (cases "is_space c")
    case True
    have "split_from [] cs = tokens cs"
      using Cons.IH [of "[]"] tokens_unfold [of cs] by simp
    with True show ?thesis by (simp add: tokens_space)
  next
    case False
    with Cons.IH [of "cur @ [c]"] show ?thesis by simp
  qed
qed

lemma py_split_tokens: "py_split s = tokens s"
  using split_from_tokens [of "[]" s] tokens_unfold [of s] by (simp add: py_split_def)

lemma tokens_no_space: "w \<in> set (tokens s) \<Longrightarrow> w \<noteq> [] \<and> (\<forall>c\<in>set w. \<not> is_space c)"
proof (induction s arbitrary: w rule: tokens.induct)
  case (1 s)
  show ?case
  proof (cases "dropWhile is_space s")
    case Nil
    with "1.prems" show ?thesis by (simp add: tokens.simps [of s])
  next
    case (Cons c cs)
    then have c: "\<not> is_space c" by (metis hd_dropWhile list.sel(1) list.distinct(1))
    from "1.prems" Cons have
      "w = c # takeWhile (\<lambda>x. \<not> is_space x) cs \<or> w \<in> set (tokens (dropWhile (\<lambda>x. \<not> is_space x) cs))"
      by (simp add: tokens.simps [of s])
    then show ?thesis
    proof
      assume "w = c # takeWhile (\<lambda>x. \<not> is_space x) cs"
      with c show ?thesis by (auto dest: set_takeWhileD)
    next
      assume "w \<in> set (tokens (dropWhile (\<lambda>x. \<not> is_space x) cs))"
      with "1.IH" [OF Cons] show ?thesis by blast
    qed
  qed
qed

lemma lower_from_latin1:
  "\<forall>c\<in>set s. c < 256 \<Longrightarrow> lower_from T seen s = map lower_latin1 s"
  by (induction s arbitrary: seen) simp_all

lemma keywords_apple:
  "extract_keywords T (u ''What are Apple's main risks?'') = map u [''apple's'', ''main'', ''risks'']"
  by (simp add: extract_keywords_def py_split_def py_lower_def lower_latin1_def
      py_replace_char_def is_space_def stopwords_def u_def)

lemma keywords_repeat:
  "extract_keywords T (u ''Risk, risk and RISK?'') = map u [''risk'', ''risk'', ''risk'']"
  by (simp add: extract_keywords_def py_split_def py_lower_def lower_latin1_def
      py_replace_char_def is_space_def stopwords_def u_def)

lemma keywords_latin1:
  "extract_keywords T (u ''SOCI'' @ [201] @ u ''T'' @ [201, 160] @ u ''du risque'' @ [160, 63])
     = [u ''soci'' @ [233] @ u ''t'' @ [233], u ''risque'']"
  by (simp add: extract_keywords_def py_split_def py_lower_def lower_latin1_def
      py_replace_char_def is_space_def stopwords_def u_def)

text \<open>
  Claim C6. Keyword extraction computes what the specification describes: lowercase the
  question, delete every question mark and comma, split on white space, keep in order
  and with repetitions the tokens that are no stopwords and longer than 2. Every keyword
  is such a token, free of white space, question marks and commas; the keywords are a
  subsequence of the tokens. The question "What are Apple's main risks?" gives apple's,
  main, risks; a repeated word is kept each time; capitals with accents are lowered and a
  no-break space separates words.
\<close>

theorem extract_keywords_spec:
  "extract_keywords T q = spec_extract_keywords T q
   \<and> subseq (extract_keywords T q) (tokens (filter (\<lambda>c. c \<noteq> 63 \<and> c \<noteq> 44) (py_lower T q)))
   \<and> (\<forall>w\<in>set (extract_keywords T q).
         2 < length w \<and> w \<notin> stopwords \<and> (\<forall>c\<in>set w. \<not> is_space c \<and> c \<noteq> 63 \<and> c \<noteq> 44))
   \<and> extract_keywords T (u ''What are Apple's main risks?'') = map u [''apple's'', ''main'', ''risks'']
   \<and> extract_keywords T (u ''Risk, risk and RISK?'') = map u [''risk'', ''risk'', ''risk'']
   \<and> extract_keywords T (u ''SOCI'' @ [201] @ u ''T'' @ [201, 160] @ u ''du risque'' @ [160, 63])
       = [u ''soci'' @ [233] @ u ''t'' @ [233], u ''risque'']"
proof -
  let ?text = "filter (\<lambda>c. c \<noteq> 63 \<and> c \<noteq> 44) (py_lower T q)"
  have del: "py_replace_char 44 [] (py_replace_char 63 [] (py_lower T q)) = ?text"
    by (simp add: replace_char_delete conj_commute)
  have shape: "extract_keywords T q = spec_extract_keywords T q"
    by (simp add: extract_keywords_def spec_extract_keywords_def del py_split_tokens)
  have sub: "subseq (extract_keywords T q) (tokens ?text)"
    by (simp add: shape spec_extract_keywords_def)
  have elems: "\<forall>w\<in>set (extract_keywords T q).
         2 < length w \<and> w \<notin> stopwords \<and> (\<forall>c\<in>set w. \<not> is_space c \<and> c \<noteq> 63 \<and> c \<noteq> 44)"
  proof
    fix w
    assume "w \<in> set (extract_keywords T q)"
    then have w: "w \<in> set (tokens ?text)" and keep: "w \<notin> stopwords" "2 < length w"
      by (simp_all add: shape spec_extract_keywords_def)
    from tokens_no_space [OF w] have nosp: "\<forall>c\<in>set w. \<not> is_space c" by simp
    have "set w \<subseteq> set ?text"
    proof -
      have "\<And>s. w \<in> set (tokens s) \<Longrightarrow> set w \<subseteq> set s"
      proof -
        fix s show "w \<in> set (tokens s) \<Longrightarrow> set w \<subseteq> set s"
        proof (induction s rule: tokens.induct)
          case (1 s)
          show ?case
          proof (cases "dropWhile is_space s")
            case Nil
            with "1.prems" show ?thesis by (simp add: tokens.simps [of s])
          next
            case (Cons c cs)
            have sub1: "set (c # cs) \<subseteq> set s"
              using Cons set_dropWhileD [of _ is_space s] by (metis subsetI)
            from "1.prems" Cons have
              "w = c # takeWhile (\<lambda>x. \<not> is_space x) cs \<or> w \<in> set (tokens (dropWhile (\<lambda>x. \<not> is_space x) cs))"
              by (simp add: tokens.simps [of s])
            then show ?thesis
            proof
              assume "w = c # takeWhile (\<lambda>x. \<not> is_space x) cs"
              with sub1 show ?thesis by (auto dest: set_takeWhileD)
            next
              assume "w \<in> set (tokens (dropWhile (\<lambda>x. \<not> is_space x) cs))"
              from "1.IH" [OF Cons this] have "set w \<subseteq> set (dropWhile (\<lambda>x. \<not> is_space x) cs)" .
              with sub1 show ?thesis by (auto dest: set_dropWhileD)
            qed
          qed
        qed
      qed
      from this [OF w] show ?thesis .
    qed
    then have "\<forall>c\<in>set w. c \<noteq> 63 \<and> c \<noteq> 44" by auto
    with nosp keep show "2 < length w \<and> w \<notin> stopwords \<and> (\<forall>c\<in>set w. \<not> is_space c \<and> c \<noteq> 63 \<and> c \<noteq> 44)"
      by simp
  qed
  from shape sub elems show ?thesis
    by (intro conjI) (assumption, assumption, assumption, rule keywords_apple, rule keywords_repeat, rule keywords_latin1)
qed

text \<open>
  The extraction and the specification agree on the question about Apple, with case
  tables that leave the code points from U+0100 on unchanged.
\<close>

theorem extract_keywords_spec_witness:
  "spec_extract_keywords plain_tables (u ''What are Apple's main risks?'')
     = map u [''apple's'', ''main'', ''risks'']"
proof -
  note th = extract_keywords_spec [where T = plain_tables and q = "u ''What are Apple's main risks?''"]
  note a = th [THEN conjunct1]
  note b = th [THEN conjunct2, THEN conjunct2, THEN conjunct2, THEN conjunct1]
  from a b show ?thesis by simp
qed

section \<open>Properties of answer synthesis\<close>

lemma collect_citations_acc:
  "collect_citations vs acc =
     acc @ List.map_filter
       (\<lambda>e. case ev_metadata e of None \<Rightarrow> None
             | Some m \<Rightarrow> if m \<noteq> [] then Some (make_citation e m) else None) vs"
  by (induction vs arbitrary: acc) (simp_all add: List.map_filter_simps split: option.splits)

lemma length_map_filter_cit:
  "length (List.map_filter
       (\<lambda>e. case ev_metadata e of None \<Rightarrow> None
             | Some m \<Rightarrow> if m \<noteq> [] then Some (f e m) else None) vs)
   = length (filter has_metadata vs)"
  by (induction vs) (simp_all add: List.map_filter_simps has_metadata_def split: option.splits)

lemma strip_blank: "(\<forall>c\<in>set s. is_space c) \<Longrightarrow> py_strip s = []"
  by (auto simp: py_strip_def dropWhile_eq_Nil_conv dest: set_dropWhileD)

lemma strip_blank_iff: "py_strip s = [] \<longleftrightarrow> (\<forall>c\<in>set s. is_space c)"
proof
  assume "py_strip s = []"
  then have "dropWhile is_space (rev (dropWhile is_space s)) = []"
    by (simp add: py_strip_def)
  then have all: "\<forall>c\<in>set (dropWhile is_space s). is_space c"
    by (simp add: dropWhile_eq_Nil_conv)
  have "dropWhile is_space s = []"
  proof (cases "dropWhile is_space s")
    case Nil
    then show ?thesis .
  next
    case (Cons c cs)
    then have "\<not> is_space c" by (metis hd_dropWhile list.sel(1) list.distinct(1))
    with all Cons show ?thesis by simp
  qed
  then show "\<forall>c\<in>set s. is_space c" by (simp add: dropWhile_eq_Nil_conv)
next
  assume "\<forall>c\<in>set s. is_space c"
  then show "py_strip s = []" by (rule strip_blank)
qed

text \<open>
  Claim C2. When the context is empty or consists of white space only (any code points
  that Python counts as white space), the synthesizer returns the fixed refusal message
  with an empty citation list, and the list of calls made to the generative model is
  empty. In every other case the generative model is called once.
\<close>

theorem blank_context_refusal:
  "((\<forall>c\<in>set ctxt. is_space c) \<longrightarrow>
      generate_answer generate llm_model question ctxt vector_results = ((refusal, []), []))
   \<and> (\<not> (\<forall>c\<in>set ctxt. is_space c) \<longrightarrow>
      snd (generate_answer generate llm_model question ctxt vector_results)
        = [(llm_model, build_prompt question ctxt)])"
  by (auto simp: generate_answer_def strip_blank_iff Let_def split: sum.splits)

text \<open>
  The refusal at a context of a space, a line feed, a tab, a no-break space, a next-line
  sign and an ideographic space.
\<close>

theorem blank_context_refusal_witness:
  "generate_answer echo_llm (u ''llama3.2'') (u ''What are the risks?'') [32, 10, 9, 160, 133, 12288] [meta_hit]
     = ((refusal, []), [])"
  using blank_context_refusal [where ctxt = "[32, 10, 9, 160, 133, 12288]" and generate = echo_llm
      and llm_model = "u ''llama3.2''" and question = "u ''What are the risks?''"
      and vector_results = "[meta_hit]", THEN conjunct1]
  by (simp add: is_space_def)

text \<open>
  Claim C1 as stated fails: when the generative model raises, the synthesizer returns no
  citation although one evidence item has non-empty metadata.
\<close>

theorem citations_counterexample:
  "snd (fst (generate_answer failing_llm (u ''llama3.2'') (u ''What are the risks?'')
               (u ''=== DOCUMENT CONTEXT ==='') [meta_hit])) = []
   \<and> length (filter has_metadata [meta_hit]) = 1"
  by (simp add: generate_answer_def failing_llm_def py_strip_def is_space_def has_metadata_def
      meta_hit_def Let_def u_def)

text \<open>
  Claim C1, amended. When the context is blank, and when the generative model raises, the
  citation list is empty. When the context is not blank and the generative model returns
  a response, the citation list has exactly one citation per evidence item whose metadata
  is a non-empty dictionary, in the order of the evidence, each with the ticker (or
  "Unknown") as source, the section (or "document"), the url (or the empty string) and the
  relevance rounded to 3 decimals.
\<close>

theorem citations_from_evidence:
  "((\<forall>c\<in>set ctxt. is_space c) \<longrightarrow>
      snd (fst (generate_answer generate llm_model question ctxt vector_results)) = [])
   \<and> (\<forall>e. generate llm_model (build_prompt question ctxt) = Inl e \<longrightarrow>
      snd (fst (generate_answer generate llm_model question ctxt vector_results)) = [])
   \<and> (\<forall>response.
        \<not> (\<forall>c\<in>set ctxt. is_space c) \<and> generate llm_model (build_prompt question ctxt) = Inr response \<longrightarrow>
        snd (fst (generate_answer generate llm_model question ctxt vector_results)) =
           List.map_filter
             (\<lambda>e. case ev_metadata e of
                     None \<Rightarrow> None
                   | Some m \<Rightarrow>
                       if m \<noteq> [] then
                         Some \<lparr>cit_source = (case map_of m (u ''ticker'') of None \<Rightarrow> VStr (u ''Unknown'') | Some t \<Rightarrow> t),
                               cit_section = (case map_of m (u ''section'') of None \<Rightarrow> VStr (u ''document'') | Some t \<Rightarrow> t),
                               cit_url = (case map_of m (u ''url'') of None \<Rightarrow> VStr [] | Some t \<Rightarrow> t),
                               cit_relevance = py_round3 (ev_relevance e)\<rparr>
                       else None) vector_results
        \<and> length (snd (fst (generate_answer generate llm_model question ctxt vector_results)))
           = length (filter has_metadata vector_results))"
proof (intro conjI allI impI)
  assume "\<forall>c\<in>set ctxt. is_space c"
  then show "snd (fst (generate_answer generate llm_model question ctxt vector_results)) = []"
    by (simp add: generate_answer_def strip_blank)
next
  fix e
  assume "generate llm_model (build_prompt question ctxt) = Inl e"
  then show "snd (fst (generate_answer generate llm_model question ctxt vector_results)) = []"
    by (simp add: generate_answer_def Let_def)
next
  fix response
  assume a: "\<not> (\<forall>c\<in>set ctxt. is_space c) \<and> generate llm_model (build_prompt question ctxt) = Inr response"
  then have ne: "py_strip ctxt \<noteq> []" by (simp add: strip_blank_iff)
  with a have c: "snd (fst (generate_answer generate llm_model question ctxt vector_results))
      = collect_citations vector_results []"
    by (simp add: generate_answer_def Let_def)
  show "snd (fst (generate_answer generate llm_model question ctxt vector_results)) =
           List.map_filter
             (\<lambda>e. case ev_metadata e of
                     None \<Rightarrow> None
                   | Some m \<Rightarrow>
                       if m \<noteq> [] then
                         Some \<lparr>cit_source = (case map_of m (u ''ticker'') of None \<Rightarrow> VStr (u ''Unknown'') | Some t \<Rightarrow> t),
                               cit_section = (case map_of m (u ''section'') of None \<Rightarrow> VStr (u ''document'') | Some t \<Rightarrow> t),
                               cit_url = (case map_of m (u ''url'') of None \<Rightarrow> VStr [] | Some t \<Rightarrow> t),
                               cit_relevance = py_round3 (ev_relevance e)\<rparr>
                       else None) vector_results"
    by (simp add: c collect_citations_acc make_citation_def dict_get_def
        cong: option.case_cong if_cong)
  show "length (snd (fst (generate_answer generate llm_model question ctxt vector_results)))
           = length (filter has_metadata vector_results)"
    by (simp add: c collect_citations_acc length_map_filter_cit)
qed

text \<open>
  Three evidence items, of which only the first has non-empty metadata, give one citation
  when the generative model answers, and none when it raises.
\<close>

theorem citations_from_evidence_witness:
  "snd (fst (generate_answer echo_llm (u ''llama3.2'') (u ''What are the risks?'') (u ''=== DOCUMENT CONTEXT ==='')
          [meta_hit, meta_hit\<lparr>ev_metadata := Some []\<rparr>, meta_hit\<lparr>ev_metadata := None\<rparr>]))
     = [\<lparr>cit_source = VStr (u ''META''), cit_section = VStr (u ''risk_factors''), cit_url = VStr [],
          cit_relevance = 9 / 10\<rparr>]
   \<and> snd (fst (generate_answer failing_llm (u ''llama3.2'') (u ''What are the risks?'') (u ''=== DOCUMENT CONTEXT ==='')
          [meta_hit, meta_hit\<lparr>ev_metadata := Some []\<rparr>, meta_hit\<lparr>ev_metadata := None\<rparr>])) = []"
proof -
  have a: "\<not> (\<forall>c\<in>set (u ''=== DOCUMENT CONTEXT ===''). is_space c)"
    by (simp add: is_space_def u_def)
  have b: "echo_llm (u ''llama3.2'') (build_prompt (u ''What are the risks?'') (u ''=== DOCUMENT CONTEXT ===''))
      = Inr (u '' According to [Source 1], regulation is a risk. '')"
    by (simp add: echo_llm_def)
  have f: "failing_llm (u ''llama3.2'') (build_prompt (u ''What are the risks?'') (u ''=== DOCUMENT CONTEXT ===''))
      = Inl (Exc ServiceError (u ''connection refused''))"
    by (simp add: failing_llm_def)
  note ok = citations_from_evidence [where generate = echo_llm and llm_model = "u ''llama3.2''"
        and question = "u ''What are the risks?''" and ctxt = "u ''=== DOCUMENT CONTEXT ===''"
        and vector_results = "[meta_hit, meta_hit\<lparr>ev_metadata := Some []\<rparr>, meta_hit\<lparr>ev_metadata := None\<rparr>]",
        THEN conjunct2, THEN conjunct2, rule_format, OF conjI, OF a b, THEN conjunct1]
  note bad = citations_from_evidence [where generate = failing_llm and llm_model = "u ''llama3.2''"
        and question = "u ''What are the risks?''" and ctxt = "u ''=== DOCUMENT CONTEXT ===''"
        and vector_results = "[meta_hit, meta_hit\<lparr>ev_metadata := Some []\<rparr>, meta_hit\<lparr>ev_metadata := None\<rparr>]",
        THEN conjunct2, THEN conjunct1, rule_format, OF f]
  have c: "snd (fst (generate_answer echo_llm (u ''llama3.2'') (u ''What are the risks?'') (u ''=== DOCUMENT CONTEXT ==='')
          [meta_hit, meta_hit\<lparr>ev_metadata := Some []\<rparr>, meta_hit\<lparr>ev_metadata := None\<rparr>]))
     = [\<lparr>cit_source = VStr (u ''META''), cit_section = VStr (u ''risk_factors''), cit_url = VStr [],
          cit_relevance = 9 / 10\<rparr>]"
    unfolding ok
    by (simp add: List.map_filter_simps meta_hit_def py_round3_def round_half_even_def Let_def u_def)
  show ?thesis by (intro conjI) (rule c, rule bad)
qed

section \<open>Properties of vector search\<close>

text \<open>
  Claim C3. A hit whose distance is present and equal to 0 gets relevance 0, not
  \<open>1 - 0\<close>: the truth test of the distance treats 0 like an absent distance.
\<close>

theorem zero_distance_relevance:
  "map ev_relevance
     (vector_search (\<lambda>q n. Inr \<lparr>documents = [Some (u ''Risk factors'')],
                                 metadatas = [Some [(u ''ticker'', VStr (u ''META''))]],
                                 distances = [Some 0]\<rparr>) (u ''Risk factors'') 5) = [0]
   \<and> relevance_of_dist (Some 0) \<noteq> 1 - 0"
  by (simp add: vector_search_def make_evidence_def relevance_of_dist_def)

lemma relevance_nonzero: "d \<noteq> 0 \<Longrightarrow> relevance_of_dist (Some d) = 1 - d"
  by (simp add: relevance_of_dist_def)

lemma relevance_unclamped: "relevance_of_dist (Some 2) = - 1 \<and> relevance_of_dist (Some (- 1)) = 2"
  by (simp add: relevance_of_dist_def)

lemma relevance_absent: "relevance_of_dist None = 0"
  by (simp add: relevance_of_dist_def)
section \<open>Properties of context assembly\<close>

lemma vector_parts_shape:
  "vector_parts fm i vs = Inr ps \<Longrightarrow>
     length ps = 2 * length vs \<and> (\<forall>k<length vs. ps ! (2 * k + 1) = take 1500 (ev_content (vs ! k)))"
proof (induction vs arbitrary: i ps)
  case Nil
  then show ?case by simp
next
  case (Cons v vs)
  from Cons.prems obtain meta qs where
    qs: "vector_parts fm (Suc i) vs = Inr qs" and
    ps: "ps = (nl @ (u ''[Source '') @ show_nat i @ (u '': '') @
               py_str fm (dict_get meta (u ''ticker'') (dict_get meta (u ''section'') (VStr (u ''unknown'')))) @ (u '']''))
              # take 1500 (ev_content v) # qs"
    by (auto simp: Let_def split: option.splits sum.splits)
  from Cons.IH [OF qs] have len: "length qs = 2 * length vs"
    and nth: "\<And>k. k < length vs \<Longrightarrow> qs ! (2 * k + 1) = take 1500 (ev_content (vs ! k))"
    by auto
  have "ps ! (2 * k + 1) = take 1500 (ev_content ((v # vs) ! k))" if "k < length (v # vs)" for k
  proof (cases k)
    case 0
    then show ?thesis by (simp add: ps)
  next
    case (Suc j)
    with that have "j < length vs" by simp
    from nth [OF this] show ?thesis by (simp add: ps Suc)
  qed
  with len ps show ?case by simp
qed

lemma vector_parts_total:
  "(\<forall>e\<in>set vs. ev_metadata e \<noteq> None) \<Longrightarrow> \<exists>ps. vector_parts fm i vs = Inr ps"
proof (induction vs arbitrary: i)
  case Nil
  then show ?case by simp
next
  case (Cons v vs)
  from Cons.prems obtain meta where meta: "ev_metadata v = Some meta" by auto
  from Cons.prems have "\<forall>e\<in>set vs. ev_metadata e \<noteq> None" by simp
  from Cons.IH [OF this, of "Suc i"] obtain qs where "vector_parts fm (Suc i) vs = Inr qs" ..
  with meta show ?case by (simp add: Let_def)
qed

lemma context_parts_total:
  "(\<forall>e\<in>set vs. ev_metadata e \<noteq> None) \<Longrightarrow> \<exists>parts. context_parts fm vs [] = Inr parts"
  using vector_parts_total [of vs fm 1]
  by (auto simp: context_parts_def split: sum.splits)

lemma part_sublist_join:
  "k < length parts \<Longrightarrow> sublist (parts ! k) (py_join sep parts)"
proof (induction sep parts arbitrary: k rule: py_join.induct)
  case (1 sep)
  then show ?case by simp
next
  case (2 sep p)
  then show ?case by simp
next
  case (3 sep p q ps)
  show ?case
  proof (cases k)
    case 0
    then show ?thesis by (simp add: sublist_append_rightI)
  next
    case (Suc j)
    with "3.prems" have "j < length (q # ps)" by simp
    from "3.IH" [OF this] have "sublist ((q # ps) ! j) (py_join sep (q # ps))" .
    then have "sublist ((q # ps) ! j) (p @ sep @ py_join sep (q # ps))"
      unfolding sublist_def by (metis append.assoc)
    then show ?thesis by (simp add: Suc)
  qed
qed

lemma empty_context: "build_context fm [] [] = Inr []"
  by (simp add: build_context_def context_parts_def)

lemma take_content_of_doc: "take 1500 (content_of_doc (Some doc)) = take 1500 doc"
  by (simp add: content_of_doc_def)

text \<open>
  Claim C7. Whenever the context is assembled, the evidence item \<open>i\<close> has its own part,
  at position \<open>2 * i + 2\<close> of the parts joined into the context: the first 1500 units of
  its content, a prefix of the content of length \<open>min 1500 (length content)\<close>, which
  occurs in the context. The content of a hit is the document cut to 2000 units, so the
  part is the first 1500 units of the document.
\<close>

theorem context_keeps_prefix:
  assumes "context_parts fm vs gs = Inr parts" and "i < length vs"
  shows "2 * i + 2 < length parts
       \<and> parts ! (2 * i + 2) = take 1500 (ev_content (vs ! i))
       \<and> prefix (parts ! (2 * i + 2)) (ev_content (vs ! i))
       \<and> length (parts ! (2 * i + 2)) = min 1500 (length (ev_content (vs ! i)))
       \<and> build_context fm vs gs = Inr (py_join nl parts)
       \<and> sublist (parts ! (2 * i + 2)) (py_join nl parts)
       \<and> take 1500 (content_of_doc (Some doc)) = take 1500 doc"
proof -
  from assms(2) have ne: "vs \<noteq> []" by auto
  from assms(1) ne obtain ps gp where
    ps: "vector_parts fm 1 vs = Inr ps" and parts: "parts = (u ''=== DOCUMENT CONTEXT ==='') # ps @ gp"
    by (auto simp: context_parts_def split: sum.splits if_splits)
  from vector_parts_shape [OF ps] assms(2)
  have len: "length ps = 2 * length vs" and nth: "ps ! (2 * i + 1) = take 1500 (ev_content (vs ! i))"
    by auto
  from len assms(2) have lt: "2 * i + 1 < length ps" by simp
  then have pos: "2 * i + 2 < length parts" by (simp add: parts)
  have val: "parts ! (2 * i + 2) = take 1500 (ev_content (vs ! i))"
    using lt nth by (simp add: parts nth_append)
  have pre: "prefix (parts ! (2 * i + 2)) (ev_content (vs ! i))"
    unfolding val by (rule take_is_prefix)
  have bc: "build_context fm vs gs = Inr (py_join nl parts)"
    using assms(1) by (simp add: build_context_def)
  have sub: "sublist (parts ! (2 * i + 2)) (py_join nl parts)"
    using pos by (rule part_sublist_join)
  have ln: "length (parts ! (2 * i + 2)) = min 1500 (length (ev_content (vs ! i)))"
    unfolding val by (simp add: min.commute)
  from pos val pre ln bc sub take_content_of_doc show ?thesis by blast
qed

text \<open>
  A document of 5000 units is cut to 2000 by the vector search and contributes its first
  1500 units to the context.
\<close>

theorem context_keeps_prefix_witness:
  "length (ev_content long_hit) = 2000
   \<and> build_context sample_formatter [long_hit] [] =
       Inr (py_join nl [(u ''=== DOCUMENT CONTEXT ===''), nl @ (u ''[Source 1: META]''), replicate 1500 120])
   \<and> prefix (replicate 1500 120) (ev_content long_hit)"
proof -
  have h: "context_parts sample_formatter [long_hit] [] =
      Inr [(u ''=== DOCUMENT CONTEXT ===''), nl @ (u ''[Source 1: META]''), replicate 1500 120]"
    by (simp add: context_parts_def long_hit_def make_evidence_def content_of_doc_def dict_get_def
        py_str_def Let_def show_nat.simps u_def)
  have i: "(0::nat) < length [long_hit]" by simp
  have l: "length (ev_content long_hit) = 2000"
    by (simp add: long_hit_def make_evidence_def content_of_doc_def)
  note th = context_keeps_prefix [where fm = sample_formatter and vs = "[long_hit]" and gs = "[]"
        and parts = "[(u ''=== DOCUMENT CONTEXT ===''), nl @ (u ''[Source 1: META]''), replicate 1500 120]"
        and i = 0 and doc = "[]", OF h i]
  from th have b: "build_context sample_formatter [long_hit] [] =
       Inr (py_join nl [(u ''=== DOCUMENT CONTEXT ===''), nl @ (u ''[Source 1: META]''), replicate 1500 120])"
    by blast
  from th have "prefix ([(u ''=== DOCUMENT CONTEXT ===''), nl @ (u ''[Source 1: META]''), replicate 1500 120] ! (2 * 0 + 2))
      (ev_content ([long_hit] ! 0))"
    by blast
  then have p: "prefix (replicate 1500 120) (ev_content long_hit)"
    by simp
  from l b p show ?thesis by blast
qed
section \<open>Properties of graph search\<close>

lemma path_calls_append: "path_calls (a @ b) = path_calls a @ path_calls b"
  by (induction a rule: path_calls.induct) simp_all

lemma probe_keywords_calls:
  "probe_keywords drv ks es s = (r, calls, s') \<Longrightarrow>
     path_calls calls = [] \<and> (\<forall>es'. r = Inr es' \<longrightarrow> (\<forall>c\<in>set calls. \<not> snd c))"
proof (induction ks arbitrary: es s r calls s')
  case Nil
  then show ?case by simp
next
  case (Cons k ks)
  obtain q s1 where q: "company_query drv k s = (q, s1)" by (cases "company_query drv k s")
  show ?case
  proof (cases q)
    case (Inl e)
    with Cons.prems q show ?thesis by auto
  next
    case (Inr rows)
    obtain r2 c2 s2 where rec: "probe_keywords drv ks (es @ map company_entity rows) s1 = (r2, c2, s2)"
      by (cases "probe_keywords drv ks (es @ map company_entity rows) s1")
    from Cons.prems q Inr rec have eq: "r = r2" "calls = (CompanyQuery k, False) # c2"
      by auto
    from Cons.IH [OF rec] eq show ?thesis by auto
  qed
qed

lemma path_query_length: "path_query drv t s = (Inr rows, s') \<Longrightarrow> length rows \<le> 10"
  by (auto simp: path_query_def split: prod.splits sum.splits)

lemma expand_first_calls:
  assumes that: "expand_first drv es s = (r, calls, s')"
  shows "path_calls calls =
       (case es of [] \<Rightarrow> []
        | first # others \<Rightarrow>
            (case map_of (ent_data first) (u ''ticker'') of
               None \<Rightarrow> [] | Some t \<Rightarrow> if truthy t then [t] else []))
     \<and> (\<forall>ps. r = Inr ps \<longrightarrow> length ps \<le> 10 \<and> (\<forall>c\<in>set calls. \<not> snd c))"
proof (cases es)
  case Nil
  then show ?thesis using that by (auto simp: expand_first_def)
next
  case (Cons first others)
  show ?thesis
  proof (cases "map_of (ent_data first) (u ''ticker'')")
    case None
    with Cons that show ?thesis by (auto simp: expand_first_def)
  next
    case (Some t)
    show ?thesis
    proof (cases "truthy t")
      case False
      with Cons Some that show ?thesis by (auto simp: expand_first_def)
    next
      case True
      obtain pr s2 where pq: "path_query drv t s = (pr, s2)" by (cases "path_query drv t s")
      show ?thesis
      proof (cases pr)
        case (Inl e)
        with Cons Some True pq that show ?thesis by (auto simp: expand_first_def)
      next
        case (Inr rows)
        from pq [unfolded Inr] have "length rows \<le> 10" by (rule path_query_length)
        with Cons Some True pq Inr that show ?thesis by (auto simp: expand_first_def)
      qed
    qed
  qed
qed

lemma search_body_calls:
  assumes "search_body T drv q s = (r, calls, s')"
  shows "\<forall>found. r = Inr found \<longrightarrow> length (snd found) \<le> 10 \<and> (\<forall>c\<in>set calls. \<not> snd c)"
proof -
  obtain r1 c1 s1 where p: "probe_keywords drv (take 5 (extract_keywords T q)) [] s = (r1, c1, s1)"
    by (cases "probe_keywords drv (take 5 (extract_keywords T q)) [] s")
  show ?thesis
  proof (cases r1)
    case (Inl e)
    with assms p show ?thesis by (auto simp: search_body_def)
  next
    case (Inr entities)
    obtain r2 c2 s2 where e: "expand_first drv entities s1 = (r2, c2, s2)"
      by (cases "expand_first drv entities s1")
    from probe_keywords_calls [OF p] Inr have c1: "\<forall>c\<in>set c1. \<not> snd c" by simp
    from expand_first_calls [OF e]
    have c2: "\<forall>ps. r2 = Inr ps \<longrightarrow> length ps \<le> 10 \<and> (\<forall>c\<in>set c2. \<not> snd c)" by simp
    show ?thesis
    proof (cases r2)
      case (Inl err)
      with assms p Inr e show ?thesis by (auto simp: search_body_def)
    next
      case r2: (Inr ps)
      with assms p Inr e have r: "r = Inr (entities, ps)" and calls: "calls = c1 @ c2"
        by (auto simp: search_body_def)
      from c2 r2 have "length ps \<le> 10" and "\<forall>c\<in>set c2. \<not> snd c" by simp_all
      with c1 have "length ps \<le> 10 \<and> (\<forall>c\<in>set (c1 @ c2). \<not> snd c)"
        by (simp add: ball_Un)
      with r calls show ?thesis by simp
    qed
  qed
qed

text \<open>
  Claim C5. When any operation of the graph store raises during a graph search (opening
  the session, a keyword query, the path query, closing the session), the search returns
  an empty entity list and an empty path list. The result of \<open>graph_search\<close> is always a
  pair of lists: no error leaves it.
\<close>

theorem graph_search_swallows_errors:
  assumes "\<exists>c. (c, True) \<in> set (fst (snd (graph_search T driver q s)))"
  shows "fst (graph_search T driver q s) = ([], [])"
proof (cases driver)
  case None
  then show ?thesis by (simp add: graph_search_def)
next
  case (Some drv)
  obtain o1 s1 where op: "open_session drv s = (o1, s1)" by (cases "open_session drv s")
  show ?thesis
  proof (cases o1)
    case (Some e)
    with \<open>driver = Some drv\<close> op show ?thesis by (simp add: graph_search_def)
  next
    case None
    obtain r calls s2 where b: "search_body T drv q s1 = (r, calls, s2)"
      by (cases "search_body T drv q s1")
    obtain cl s3 where c: "close_session drv s2 = (cl, s3)" by (cases "close_session drv s2")
    show ?thesis
    proof (cases r)
      case (Inl e)
      with \<open>driver = Some drv\<close> op None b c show ?thesis by (simp add: graph_search_def)
    next
      case (Inr found)
      with search_body_calls [OF b] have ok: "\<forall>c\<in>set calls. \<not> snd c" by simp
      show ?thesis
      proof (cases cl)
        case (Some e)
        with \<open>driver = Some drv\<close> op None b c Inr show ?thesis by (simp add: graph_search_def)
      next
        case cn: None
        from \<open>driver = Some drv\<close> op None b c cn
        have "fst (snd (graph_search T driver q s)) = (OpenSession, False) # calls @ [(CloseSession, False)]"
          by (simp add: graph_search_def)
        with assms ok have False by auto
        then show ?thesis ..
      qed
    qed
  qed
qed

lemma keywords_acme_boom: "extract_keywords T (u ''acme boom'') = [(u ''acme''), (u ''boom'')]"
  by (simp add: extract_keywords_def py_split_def py_lower_def lower_latin1_def u_def
      py_replace_char_def is_space_def stopwords_def)

lemma sample_run_boom:
  "graph_search plain_tables (Some sample_driver) (u ''acme boom'') 0 =
     (([], []),
      [(OpenSession, False), (CompanyQuery (u ''acme''), False), (CompanyQuery (u ''boom''), True),
       (CloseSession, False)], 2)"
  unfolding graph_search_def search_body_def keywords_acme_boom
  by (simp add: sample_driver_def u_def company_query_def)

lemma sample_probe_acme:
  "fst (probe_keywords sample_driver [(u ''acme'')] [] 0) = Inr [company_entity acme_node]"
  by (simp add: sample_driver_def u_def company_query_def)

text \<open>
  The first keyword matches a company, the query for the second raises: the entity found
  is discarded.
\<close>

theorem graph_search_swallows_errors_witness:
  "(CompanyQuery (u ''boom''), True) \<in> set (fst (snd (graph_search plain_tables (Some sample_driver) (u ''acme boom'') 0)))
   \<and> fst (probe_keywords sample_driver [(u ''acme'')] [] 0) = Inr [company_entity acme_node]
   \<and> fst (graph_search plain_tables (Some sample_driver) (u ''acme boom'') 0) = ([], [])"
proof -
  have l: "(CompanyQuery (u ''boom''), True) \<in> set (fst (snd (graph_search plain_tables (Some sample_driver) (u ''acme boom'') 0)))"
    by (simp add: sample_run_boom)
  have "\<exists>c. (c, True) \<in> set (fst (snd (graph_search plain_tables (Some sample_driver) (u ''acme boom'') 0)))"
    by (simp add: sample_run_boom)
  from graph_search_swallows_errors [OF this]
  have r: "fst (graph_search plain_tables (Some sample_driver) (u ''acme boom'') 0) = ([], [])" .
  show ?thesis
    by (intro conjI) (rule l, rule sample_probe_acme, rule r)
qed

lemma graph_search_opened:
  assumes "open_session drv s = (None, s1)"
    and "probe_keywords drv (take 5 (extract_keywords T q)) [] s1 = (Inr entities, calls, s2)"
    and "expand_first drv entities s2 = (r, calls', s3)"
    and "close_session drv s3 = (cl, s4)"
  shows "graph_search T (Some drv) q s =
           ((case r of Inl e \<Rightarrow> ([], [])
             | Inr paths \<Rightarrow> if cl = None then (entities, paths) else ([], [])),
            (OpenSession, False) # (calls @ calls') @ [(CloseSession, cl \<noteq> None)], s4)"
  using assms by (cases r) (simp_all add: graph_search_def search_body_def)

lemma expand_first_by_ticker:
  "expand_first drv entities s =
     (case first_ticker entities of
        None \<Rightarrow> (Inr [], [], s)
      | Some t \<Rightarrow>
          (case path_query drv t s of
             (Inl e, s') \<Rightarrow> (Inl e, [(PathQuery t, True)], s')
           | (Inr rows, s') \<Rightarrow> (Inr (map (make_path t) rows), [(PathQuery t, False)], s')))"
  by (simp add: expand_first_def first_ticker_def split: list.splits option.splits)

lemma graph_search_paths:
  assumes o: "open_session drv s = (None, s1)"
    and p: "probe_keywords drv (take 5 (extract_keywords T q)) [] s1 = (Inr entities, calls, s2)"
  shows "path_calls (fst (snd (graph_search T (Some drv) q s))) =
           (case first_ticker entities of None \<Rightarrow> [] | Some t \<Rightarrow> [t])"
    and "length (snd (fst (graph_search T (Some drv) q s))) \<le> 10"
    and "first_ticker entities = None \<Longrightarrow> snd (fst (graph_search T (Some drv) q s)) = []"
    and "first_ticker entities = Some t \<Longrightarrow> outgoing_relations drv t s2 = (Inr rows, s3) \<Longrightarrow>
           close_session drv s3 = (None, s4) \<Longrightarrow>
           fst (graph_search T (Some drv) q s) = (entities, map (make_path t) (take 10 rows))"
    and "first_ticker entities = None \<Longrightarrow> close_session drv s2 = (None, s4) \<Longrightarrow>
           fst (graph_search T (Some drv) q s) = (entities, [])"
proof -
  obtain r calls' s3' where e: "expand_first drv entities s2 = (r, calls', s3')"
    by (cases "expand_first drv entities s2")
  obtain cl s4' where c: "close_session drv s3' = (cl, s4')"
    by (cases "close_session drv s3'")
  note gs = graph_search_opened [OF o p e c]
  from probe_keywords_calls [OF p] have pc: "path_calls calls = []" by simp
  from expand_first_calls [OF e]
  have ec: "path_calls calls' = (case first_ticker entities of None \<Rightarrow> [] | Some t \<Rightarrow> [t])"
    and el: "\<And>ps. r = Inr ps \<Longrightarrow> length ps \<le> 10"
    by (auto simp: first_ticker_def split: list.splits option.splits)
  show "path_calls (fst (snd (graph_search T (Some drv) q s))) =
           (case first_ticker entities of None \<Rightarrow> [] | Some t \<Rightarrow> [t])"
    by (simp add: gs path_calls_append pc ec)
  show "length (snd (fst (graph_search T (Some drv) q s))) \<le> 10"
    using el by (cases r) (simp_all add: gs)
  {
    assume n: "first_ticker entities = None"
    with e have r: "r = Inr []" and s3': "s3' = s2"
      by (simp_all add: expand_first_by_ticker)
    show "snd (fst (graph_search T (Some drv) q s)) = []"
      by (simp add: gs r)
    assume "close_session drv s2 = (None, s4)"
    with c s3' have "cl = None" by simp
    then show "fst (graph_search T (Some drv) q s) = (entities, [])"
      by (simp add: gs r)
  }
  {
    assume t: "first_ticker entities = Some t"
      and rows: "outgoing_relations drv t s2 = (Inr rows, s3)"
      and cl: "close_session drv s3 = (None, s4)"
    from rows have "path_query drv t s2 = (Inr (take 10 rows), s3)"
      by (simp add: path_query_def)
    with e t have r: "r = Inr (map (make_path t) (take 10 rows))" and "s3' = s3"
      by (simp_all add: expand_first_by_ticker)
    with c cl have "cl = None" by simp
    then show "fst (graph_search T (Some drv) q s) = (entities, map (make_path t) (take 10 rows))"
      by (simp add: gs r)
  }
qed

lemma keywords_meta_acme: "extract_keywords T (u ''meta acme'') = [(u ''meta''), (u ''acme'')]"
  by (simp add: extract_keywords_def py_split_def py_lower_def lower_latin1_def u_def
      py_replace_char_def is_space_def stopwords_def)

lemma keywords_acme_meta: "extract_keywords T (u ''acme meta'') = [(u ''acme''), (u ''meta'')]"
  by (simp add: extract_keywords_def py_split_def py_lower_def lower_latin1_def u_def
      py_replace_char_def is_space_def stopwords_def)

lemma keywords_about_acme: "extract_keywords T (u ''What about Acme, meta?'') = [(u ''acme''), (u ''meta'')]"
  by (simp add: extract_keywords_def py_split_def py_lower_def lower_latin1_def u_def
      py_replace_char_def is_space_def stopwords_def)

lemma sample_open: "open_session sample_driver 0 = (None, 0)"
  by (simp add: sample_driver_def u_def)

lemma expand_first_paths:
  assumes "expand_first drv es s = (r, calls, s')"
  shows "length (path_calls calls) \<le> 1
       \<and> (\<forall>ps. r = Inr ps \<longrightarrow> length ps \<le> 10 \<and> (\<forall>p\<in>set ps. path_calls calls = [gp_source p]))"
proof (cases "first_ticker es")
  case None
  with assms show ?thesis by (auto simp: expand_first_by_ticker)
next
  case (Some t)
  obtain pr s2 where pq: "path_query drv t s = (pr, s2)" by (cases "path_query drv t s")
  show ?thesis
  proof (cases pr)
    case (Inl e)
    with assms Some pq show ?thesis by (auto simp: expand_first_by_ticker)
  next
    case (Inr rows)
    from pq [unfolded Inr] have "length rows \<le> 10" by (rule path_query_length)
    with assms Some pq Inr show ?thesis
      by (auto simp: expand_first_by_ticker make_path_def)
  qed
qed

lemma search_body_paths:
  assumes "search_body T drv q s = (r, calls, s')"
  shows "length (path_calls calls) \<le> 1
       \<and> (\<forall>found. r = Inr found \<longrightarrow>
             length (snd found) \<le> 10 \<and> (\<forall>p\<in>set (snd found). path_calls calls = [gp_source p]))"
proof -
  obtain r1 c1 s1 where p: "probe_keywords drv (take 5 (extract_keywords T q)) [] s = (r1, c1, s1)"
    by (cases "probe_keywords drv (take 5 (extract_keywords T q)) [] s")
  from probe_keywords_calls [OF p] have pc: "path_calls c1 = []" by simp
  show ?thesis
  proof (cases r1)
    case (Inl e)
    with assms p pc show ?thesis by (auto simp: search_body_def)
  next
    case (Inr entities)
    obtain r2 c2 s2 where e: "expand_first drv entities s1 = (r2, c2, s2)"
      by (cases "expand_first drv entities s1")
    note ep = expand_first_paths [OF e]
    show ?thesis
    proof (cases r2)
      case (Inl err)
      with assms p Inr e have "r = Inl err" and "calls = c1 @ c2" by (auto simp: search_body_def)
      with ep pc show ?thesis by (simp add: path_calls_append)
    next
      case r2: (Inr ps)
      with assms p Inr e have "r = Inr (entities, ps)" and "calls = c1 @ c2"
        by (auto simp: search_body_def)
      with ep pc r2 show ?thesis by (simp add: path_calls_append)
    qed
  qed
qed

lemma graph_search_bounds:
  "length (path_calls (fst (snd (graph_search T driver q s)))) \<le> 1
   \<and> length (snd (fst (graph_search T driver q s))) \<le> 10
   \<and> (\<forall>p\<in>set (snd (fst (graph_search T driver q s))).
         path_calls (fst (snd (graph_search T driver q s))) = [gp_source p])"
proof (cases driver)
  case None
  then show ?thesis by (simp add: graph_search_def)
next
  case (Some drv)
  obtain o1 s1 where op: "open_session drv s = (o1, s1)" by (cases "open_session drv s")
  show ?thesis
  proof (cases o1)
    case (Some e)
    with \<open>driver = Some drv\<close> op show ?thesis by (simp add: graph_search_def)
  next
    case None
    obtain r calls s2 where b: "search_body T drv q s1 = (r, calls, s2)"
      by (cases "search_body T drv q s1")
    obtain cl s3 where c: "close_session drv s2 = (cl, s3)" by (cases "close_session drv s2")
    note sp = search_body_paths [OF b]
    have calls: "path_calls (fst (snd (graph_search T driver q s))) = path_calls calls"
      using \<open>driver = Some drv\<close> op None b c by (simp add: graph_search_def path_calls_append)
    show ?thesis
    proof (cases r)
      case (Inl e)
      with \<open>driver = Some drv\<close> op None b c have "fst (graph_search T driver q s) = ([], [])"
        by (simp add: graph_search_def)
      with sp calls show ?thesis by simp
    next
      case (Inr found)
      show ?thesis
      proof (cases cl)
        case (Some e)
        with \<open>driver = Some drv\<close> op None b c Inr have "fst (graph_search T driver q s) = ([], [])"
          by (simp add: graph_search_def)
        with sp calls show ?thesis by simp
      next
        case cn: None
        with \<open>driver = Some drv\<close> op None b c Inr have "fst (graph_search T driver q s) = found"
          by (simp add: graph_search_def)
        with sp calls Inr show ?thesis by simp
      qed
    qed
  qed
qed

text \<open>
  Claim C4, amended. Graph search asks for paths at most once and returns at most 10
  paths, all from the key it asked for. When the session opens and every keyword query
  returns, the one path query is for the ticker of the first matched entity if that ticker
  passes the truth test, and there is none otherwise: when no entity matched or the first
  has no ticker or an empty one, the path list is empty. When furthermore the path query
  and the closing succeed, the result is the matched entities with the first 10 rows of
  that ticker, each as a path from it.
\<close>

theorem graph_search_single_anchor:
  "length (path_calls (fst (snd (graph_search T driver q s)))) \<le> 1
   \<and> length (snd (fst (graph_search T driver q s))) \<le> 10
   \<and> (\<forall>p\<in>set (snd (fst (graph_search T driver q s))).
         path_calls (fst (snd (graph_search T driver q s))) = [gp_source p])
   \<and> (driver = Some drv \<and> open_session drv s = (None, s1)
        \<and> probe_keywords drv (take 5 (extract_keywords T q)) [] s1 = (Inr entities, calls, s2) \<longrightarrow>
          path_calls (fst (snd (graph_search T driver q s))) =
            (case first_ticker entities of None \<Rightarrow> [] | Some t \<Rightarrow> [t])
        \<and> (first_ticker entities = None \<longrightarrow> snd (fst (graph_search T driver q s)) = [])
        \<and> (first_ticker entities = Some t \<and> outgoing_relations drv t s2 = (Inr rows, s3)
             \<and> close_session drv s3 = (None, s4) \<longrightarrow>
            fst (graph_search T driver q s) = (entities, map (make_path t) (take 10 rows))))"
proof -
  have cond: "path_calls (fst (snd (graph_search T driver q s))) =
            (case first_ticker entities of None \<Rightarrow> [] | Some t \<Rightarrow> [t])
        \<and> (first_ticker entities = None \<longrightarrow> snd (fst (graph_search T driver q s)) = [])
        \<and> (first_ticker entities = Some t \<and> outgoing_relations drv t s2 = (Inr rows, s3)
             \<and> close_session drv s3 = (None, s4) \<longrightarrow>
            fst (graph_search T driver q s) = (entities, map (make_path t) (take 10 rows)))"
    if d: "driver = Some drv" and o: "open_session drv s = (None, s1)"
      and p: "probe_keywords drv (take 5 (extract_keywords T q)) [] s1 = (Inr entities, calls, s2)"
  proof -
    note gp = graph_search_paths [OF o p]
    from gp(1) gp(3) gp(4) show ?thesis unfolding d by blast
  qed
  from graph_search_bounds [of T driver q s] cond show ?thesis by blast
qed

text \<open>
  The company META has twelve suppliers; ten paths are returned, all from META, although
  a second entity matched.
\<close>

theorem graph_search_single_anchor_witness:
  "path_calls (fst (snd (graph_search plain_tables (Some sample_driver) (u ''meta acme'') 0))) = [VStr (u ''META'')]
   \<and> fst (graph_search plain_tables (Some sample_driver) (u ''meta acme'') 0) =
       ([company_entity meta_node, company_entity acme_node],
        replicate 10 (make_path (VStr (u ''META'')) supplier_row))"
proof -
  have p: "probe_keywords sample_driver (take 5 (extract_keywords plain_tables (u ''meta acme''))) [] 0 =
     (Inr [company_entity meta_node, company_entity acme_node],
      [(CompanyQuery (u ''meta''), False), (CompanyQuery (u ''acme''), False)], 2)"
    unfolding keywords_meta_acme by (simp add: sample_driver_def u_def company_query_def)
  have ft: "first_ticker [company_entity meta_node, company_entity acme_node] = Some (VStr (u ''META''))"
    by (simp add: first_ticker_def company_entity_def meta_node_def u_def)
  have rows: "outgoing_relations sample_driver (VStr (u ''META'')) 2 = (Inr (replicate 12 supplier_row), 3)"
    by (simp add: sample_driver_def)
  have cl: "close_session sample_driver 3 = (None, 3)"
    by (simp add: sample_driver_def)
  note th = graph_search_single_anchor [where T = plain_tables and driver = "Some sample_driver"
      and drv = sample_driver and s = 0 and ?s1.0 = 0 and q = "u ''meta acme''" and ?s2.0 = 2
      and entities = "[company_entity meta_node, company_entity acme_node]"
      and calls = "[(CompanyQuery (u ''meta''), False), (CompanyQuery (u ''acme''), False)]"
      and t = "VStr (u ''META'')" and rows = "replicate 12 supplier_row" and ?s3.0 = 3 and ?s4.0 = 3,
      THEN conjunct2, THEN conjunct2, THEN conjunct2, THEN mp, OF conjI [OF refl conjI [OF sample_open p]]]
  have a: "path_calls (fst (snd (graph_search plain_tables (Some sample_driver) (u ''meta acme'') 0))) = [VStr (u ''META'')]"
    using th [THEN conjunct1] by (simp add: ft)
  have "fst (graph_search plain_tables (Some sample_driver) (u ''meta acme'') 0) =
       ([company_entity meta_node, company_entity acme_node],
        map (make_path (VStr (u ''META''))) (take 10 (replicate 12 supplier_row)))"
    using th [THEN conjunct2, THEN conjunct2, THEN mp, OF conjI [OF ft conjI [OF rows cl]]] .
  then have b: "fst (graph_search plain_tables (Some sample_driver) (u ''meta acme'') 0) =
       ([company_entity meta_node, company_entity acme_node],
        replicate 10 (make_path (VStr (u ''META'')) supplier_row))"
    by simp
  show ?thesis by (intro conjI) (rule a, rule b)
qed

lemma sample_run_acme_meta:
  "graph_search plain_tables (Some sample_driver) (u ''acme meta'') 0 =
     (([company_entity acme_node, company_entity meta_node], []),
      [(OpenSession, False), (CompanyQuery (u ''acme''), False), (CompanyQuery (u ''meta''), False),
       (CloseSession, False)], 2)"
  unfolding graph_search_def search_body_def keywords_acme_meta
  by (simp add: sample_driver_def u_def company_query_def expand_first_def company_entity_def acme_node_def)

text \<open>
  Claim C4 as stated fails: two entities match, the first has no ticker, and no path is
  fetched from any key.
\<close>

theorem graph_search_anchor_counterexample:
  "fst (fst (graph_search plain_tables (Some sample_driver) (u ''acme meta'') 0)) =
     [company_entity acme_node, company_entity meta_node]
   \<and> path_calls (fst (snd (graph_search plain_tables (Some sample_driver) (u ''acme meta'') 0))) = []
   \<and> snd (fst (graph_search plain_tables (Some sample_driver) (u ''acme meta'') 0)) = []"
  by (simp add: sample_run_acme_meta)

text \<open>
  Claim C9. When the matched entities are not empty and the first has no ticker, or one
  that fails the truth test, no path query is made and the path list is empty, whatever
  the other entities hold.
\<close>

theorem no_expansion_without_ticker:
  assumes "open_session drv s = (None, s1)"
    and "probe_keywords drv (take 5 (extract_keywords T q)) [] s1 = (Inr (first # others), calls, s2)"
    and "case map_of (ent_data first) (u ''ticker'') of None \<Rightarrow> True | Some t \<Rightarrow> \<not> truthy t"
  shows "snd (fst (graph_search T (Some drv) q s)) = []
       \<and> path_calls (fst (snd (graph_search T (Some drv) q s))) = []
       \<and> (\<forall>s4. close_session drv s2 = (None, s4) \<longrightarrow>
             fst (graph_search T (Some drv) q s) = (first # others, []))"
proof -
  from assms(3) have n: "first_ticker (first # others) = None"
    by (auto simp: first_ticker_def split: option.splits)
  note gp = graph_search_paths [OF assms(1) assms(2)]
  from gp(1) n have "path_calls (fst (snd (graph_search T (Some drv) q s))) = []" by simp
  with gp(3) [OF n] gp(5) [OF n] show ?thesis by simp
qed

text \<open>
  The first match has no ticker, the second has the ticker META: nothing is expanded.
\<close>

theorem no_expansion_without_ticker_witness:
  "map_of acme_node (u ''ticker'') = None
   \<and> map_of meta_node (u ''ticker'') = Some (VStr (u ''META''))
   \<and> path_calls (fst (snd (graph_search plain_tables (Some sample_driver) (u ''What about Acme, meta?'') 0))) = []
   \<and> fst (graph_search plain_tables (Some sample_driver) (u ''What about Acme, meta?'') 0) =
       ([company_entity acme_node, company_entity meta_node], [])"
proof -
  have p: "probe_keywords sample_driver (take 5 (extract_keywords plain_tables (u ''What about Acme, meta?''))) [] 0 =
     (Inr (company_entity acme_node # [company_entity meta_node]),
      [(CompanyQuery (u ''acme''), False), (CompanyQuery (u ''meta''), False)], 2)"
    unfolding keywords_about_acme by (simp add: sample_driver_def u_def company_query_def)
  have a: "map_of acme_node (u ''ticker'') = None" by (simp add: acme_node_def u_def)
  have m: "map_of meta_node (u ''ticker'') = Some (VStr (u ''META''))" by (simp add: meta_node_def u_def)
  have t: "case map_of (ent_data (company_entity acme_node)) (u ''ticker'') of
             None \<Rightarrow> True | Some t \<Rightarrow> \<not> truthy t"
    by (simp add: company_entity_def a)
  have cl: "close_session sample_driver 2 = (None, 2)"
    by (simp add: sample_driver_def u_def)
  note th = no_expansion_without_ticker [where drv = sample_driver and s = 0 and ?s1.0 = 0
      and q = "(u ''What about Acme, meta?'')" and ?s2.0 = 2
      and first = "company_entity acme_node" and others = "[company_entity meta_node]"
      and calls = "[(CompanyQuery (u ''acme''), False), (CompanyQuery (u ''meta''), False)]",
      OF sample_open p t]
  from th have c: "path_calls (fst (snd (graph_search plain_tables (Some sample_driver) (u ''What about Acme, meta?'') 0))) = []"
    by simp
  from th cl have r: "fst (graph_search plain_tables (Some sample_driver) (u ''What about Acme, meta?'') 0) =
       ([company_entity acme_node, company_entity meta_node], [])"
    by simp
  show ?thesis by (intro conjI) (rule a, rule m, rule c, rule r)
qed
section \<open>Properties of the ingestor\<close>

lemma map_of_dict_set: "map_of (dict_set d k v) k' = (if k' = k then Some v else map_of d k')"
  by (induction d k v rule: dict_set.induct) auto

lemma stamp_node_keyed [simp]: "node_keyed label name (stamp_node source now n) = node_keyed label name n"
  by (simp add: node_keyed_def node_named_def stamp_node_def map_of_dict_set u_def)

lemma filter_map_preserving:
  "(\<And>x. P (f x) = P x) \<Longrightarrow> length (filter P (map f xs)) = length (filter P xs)"
  by (induction xs) simp_all

lemma merge_node_count:
  "length (filter (node_keyed l n) (db_nodes (merge_node l n s db))) =
     (if filter (node_keyed l n) (db_nodes db) = [] then 1
      else length (filter (node_keyed l n) (db_nodes db)))"
proof (cases "filter (node_keyed l n) (db_nodes db) = []")
  case True
  have "node_keyed l n \<lparr>n_labels = [l], n_props = [((u ''name''), VStr n)]\<rparr>"
    by (simp add: node_keyed_def node_named_def)
  with True show ?thesis by (simp add: merge_node_def Let_def)
next
  case False
  have "length (filter (node_keyed l n)
          (map (\<lambda>x. if node_keyed l n x then stamp_node s (db_clock db) x else x) (db_nodes db)))
        = length (filter (node_keyed l n) (db_nodes db))"
    by (rule filter_map_preserving) simp
  with False show ?thesis by (simp add: merge_node_def Let_def)
qed

lemma merge_node_again:
  assumes "filter (node_keyed l n) (db_nodes db) \<noteq> []"
  shows "length (db_nodes (merge_node l n s db)) = length (db_nodes db)"
    and "map n_labels (db_nodes (merge_node l n s db)) = map n_labels (db_nodes db)"
    and "db_edges (merge_node l n s db) = db_edges db"
  using assms by (simp_all add: merge_node_def Let_def stamp_node_def comp_def cong: map_cong)

lemma merge_node_keyed_exists: "filter (node_keyed l n) (db_nodes (merge_node l n s db)) \<noteq> []"
proof -
  have "length (filter (node_keyed l n) (db_nodes (merge_node l n s db))) \<noteq> 0"
    by (simp add: merge_node_count)
  then show ?thesis by simp
qed

lemma merge_node_sourced:
  "x \<in> set (db_nodes (merge_node l n s db)) \<Longrightarrow> node_keyed l n x \<Longrightarrow>
     map_of (n_props x) (u ''source'') = Some (VStr s)"
  by (auto simp: merge_node_def Let_def stamp_node_def map_of_dict_set filter_empty_conv u_def split: if_splits)

lemma ingest_single:
  assumes "nm \<noteq> []" and "gw_open_error w = None" and "gw_close_error w = None"
    and "\<not> gw_rejects w (MergeNode ty nm src) (gw_db w)"
  shows "add_entities_to_graph T (Some w) [single_entity src ty nm] =
           (Inr (Added 1 0), Some (merge_node ty nm src (gw_db w)), [MergeNode ty nm src])"
  using assms
  by (simp add: add_entities_to_graph_def add_extraction_def single_entity_def add_entity_def
      session_run_def Let_def)

lemma merge_node_restamp:
  assumes "\<And>x. x \<in> set (db_nodes db) \<Longrightarrow> node_keyed l n x \<Longrightarrow> map_of (n_props x) (u ''source'') = Some (VStr s)"
    and "filter (node_keyed l n) (db_nodes db) \<noteq> []"
    and "i < length (db_nodes db)" and "k \<noteq> (u ''updated_at'')"
  shows "map_of (n_props (db_nodes (merge_node l n s db) ! i)) k = map_of (n_props (db_nodes db ! i)) k"
proof -
  from assms(3) have mem: "db_nodes db ! i \<in> set (db_nodes db)" by simp
  show ?thesis
  proof (cases "node_keyed l n (db_nodes db ! i)")
    case True
    from assms(1) [OF mem True] assms(2,3,4) True show ?thesis
      by (simp add: merge_node_def Let_def stamp_node_def map_of_dict_set)
  next
    case False
    with assms(2,3) show ?thesis by (simp add: merge_node_def Let_def)
  qed
qed

text \<open>
  Claim C8. An entity with a non-empty name is merged twice through the ingestor, by a
  store that accepts the statement. Each call reports one entity added, and a batch
  holding the entity twice reports two. The second merge adds no node: the nodes keep
  their number, their labels and every property but the time stamp, the edges are
  untouched, and the nodes with that label and name are one when there was none before
  the first merge (as many as before otherwise).
\<close>

theorem merge_entity_twice:
  assumes "nm \<noteq> []" and "gw_open_error w = None" and "gw_close_error w = None"
    and "\<forall>db. \<not> gw_rejects w (MergeNode ty nm src) db"
  shows "add_entities_to_graph T (Some w) [single_entity src ty nm] =
           (Inr (Added 1 0), Some (merge_node ty nm src (gw_db w)), [MergeNode ty nm src])
       \<and> add_entities_to_graph T (Some (w\<lparr>gw_db := merge_node ty nm src (gw_db w)\<rparr>)) [single_entity src ty nm] =
           (Inr (Added 1 0), Some (merge_node ty nm src (merge_node ty nm src (gw_db w))), [MergeNode ty nm src])
       \<and> length (db_nodes (merge_node ty nm src (merge_node ty nm src (gw_db w))))
           = length (db_nodes (merge_node ty nm src (gw_db w)))
       \<and> map n_labels (db_nodes (merge_node ty nm src (merge_node ty nm src (gw_db w))))
           = map n_labels (db_nodes (merge_node ty nm src (gw_db w)))
       \<and> (\<forall>i k. i < length (db_nodes (merge_node ty nm src (gw_db w))) \<and> k \<noteq> (u ''updated_at'') \<longrightarrow>
             map_of (n_props (db_nodes (merge_node ty nm src (merge_node ty nm src (gw_db w))) ! i)) k
               = map_of (n_props (db_nodes (merge_node ty nm src (gw_db w)) ! i)) k)
       \<and> db_edges (merge_node ty nm src (merge_node ty nm src (gw_db w))) = db_edges (gw_db w)
       \<and> length (filter (node_keyed ty nm) (db_nodes (merge_node ty nm src (merge_node ty nm src (gw_db w)))))
           = (if filter (node_keyed ty nm) (db_nodes (gw_db w)) = [] then 1
              else length (filter (node_keyed ty nm) (db_nodes (gw_db w))))
       \<and> fst (add_entities_to_graph T (Some w) [single_entity src ty nm, single_entity src ty nm])
           = Inr (Added 2 0)"
proof -
  let ?db1 = "merge_node ty nm src (gw_db w)"
  let ?db2 = "merge_node ty nm src ?db1"
  from assms(4) have r0: "\<not> gw_rejects w (MergeNode ty nm src) (gw_db w)" by simp
  have first: "add_entities_to_graph T (Some w) [single_entity src ty nm] =
           (Inr (Added 1 0), Some ?db1, [MergeNode ty nm src])"
    using assms(1,2,3) r0 by (rule ingest_single)
  have second: "add_entities_to_graph T (Some (w\<lparr>gw_db := ?db1\<rparr>)) [single_entity src ty nm] =
           (Inr (Added 1 0), Some ?db2, [MergeNode ty nm src])"
    using ingest_single [of nm "w\<lparr>gw_db := ?db1\<rparr>" ty src] assms by simp
  have ex: "filter (node_keyed ty nm) (db_nodes ?db1) \<noteq> []"
    by (rule merge_node_keyed_exists)
  note again = merge_node_again [OF ex, of src]
  have props: "\<forall>i k. i < length (db_nodes ?db1) \<and> k \<noteq> (u ''updated_at'') \<longrightarrow>
             map_of (n_props (db_nodes ?db2 ! i)) k = map_of (n_props (db_nodes ?db1 ! i)) k"
  proof (intro allI impI)
    fix i k
    assume a: "i < length (db_nodes ?db1) \<and> k \<noteq> (u ''updated_at'')"
    have sourced: "\<And>x. x \<in> set (db_nodes ?db1) \<Longrightarrow> node_keyed ty nm x \<Longrightarrow>
        map_of (n_props x) (u ''source'') = Some (VStr src)"
      by (rule merge_node_sourced)
    from a have i: "i < length (db_nodes ?db1)" and k: "k \<noteq> (u ''updated_at'')" by simp_all
    from sourced ex i k
    show "map_of (n_props (db_nodes ?db2 ! i)) k = map_of (n_props (db_nodes ?db1 ! i)) k"
      by (rule merge_node_restamp)
  qed
  have edges: "db_edges ?db2 = db_edges (gw_db w)"
    by (simp add: again(3)) (simp add: merge_node_def Let_def)
  have count: "length (filter (node_keyed ty nm) (db_nodes ?db2))
           = (if filter (node_keyed ty nm) (db_nodes (gw_db w)) = [] then 1
              else length (filter (node_keyed ty nm) (db_nodes (gw_db w))))"
    using ex by (simp add: merge_node_count [of ty nm src ?db1] merge_node_count [of ty nm src "gw_db w"])
  have both: "fst (add_entities_to_graph T (Some w) [single_entity src ty nm, single_entity src ty nm])
           = Inr (Added 2 0)"
    using assms
    by (simp add: add_entities_to_graph_def add_extraction_def single_entity_def add_entity_def
        session_run_def Let_def)
  from first second again(1) again(2) props edges count both show ?thesis by blast
qed

text \<open>
  The entity Acme of type Organization, merged twice into the empty store: one node, and
  one entity added by each call.
\<close>

theorem merge_entity_twice_witness:
  "add_entities_to_graph plain_tables (Some (strict_writer empty_db)) [single_entity (u ''report.pdf'') (u ''Organization'') (u ''Acme'')]
     = (Inr (Added 1 0), Some (merge_node (u ''Organization'') (u ''Acme'') (u ''report.pdf'') empty_db),
        [MergeNode (u ''Organization'') (u ''Acme'') (u ''report.pdf'')])
   \<and> add_entities_to_graph plain_tables (Some (strict_writer (merge_node (u ''Organization'') (u ''Acme'') (u ''report.pdf'') empty_db)))
       [single_entity (u ''report.pdf'') (u ''Organization'') (u ''Acme'')]
     = (Inr (Added 1 0),
        Some (merge_node (u ''Organization'') (u ''Acme'') (u ''report.pdf'')
               (merge_node (u ''Organization'') (u ''Acme'') (u ''report.pdf'') empty_db)),
        [MergeNode (u ''Organization'') (u ''Acme'') (u ''report.pdf'')])
   \<and> length (db_nodes (merge_node (u ''Organization'') (u ''Acme'') (u ''report.pdf'')
                 (merge_node (u ''Organization'') (u ''Acme'') (u ''report.pdf'') empty_db))) = 1"
proof -
  have n: "(u ''Acme'') \<noteq> []" by (simp add: u_def)
  have o: "gw_open_error (strict_writer empty_db) = None" by (simp add: strict_writer_def)
  have c: "gw_close_error (strict_writer empty_db) = None" by (simp add: strict_writer_def)
  have r: "\<forall>db. \<not> gw_rejects (strict_writer empty_db) (MergeNode (u ''Organization'') (u ''Acme'') (u ''report.pdf'')) db"
    by (simp add: strict_writer_def u_def)
  have w: "(strict_writer empty_db)\<lparr>gw_db := merge_node (u ''Organization'') (u ''Acme'') (u ''report.pdf'') empty_db\<rparr>
      = strict_writer (merge_node (u ''Organization'') (u ''Acme'') (u ''report.pdf'') empty_db)"
    by (simp add: strict_writer_def)
  have g: "gw_db (strict_writer empty_db) = empty_db" by (simp add: strict_writer_def)
  note th = merge_entity_twice [where T = plain_tables and w = "strict_writer empty_db" and nm = "(u ''Acme'')"
      and ty = "(u ''Organization'')" and src = "(u ''report.pdf'')", OF n o c r, unfolded w g]
  note a = th [THEN conjunct1]
  note b = th [THEN conjunct2, THEN conjunct1]
  note l = th [THEN conjunct2, THEN conjunct2, THEN conjunct1]
  have "length (db_nodes (merge_node (u ''Organization'') (u ''Acme'') (u ''report.pdf'') empty_db)) = 1"
    by (simp add: merge_node_def empty_db_def Let_def)
  with l have d: "length (db_nodes (merge_node (u ''Organization'') (u ''Acme'') (u ''report.pdf'')
                 (merge_node (u ''Organization'') (u ''Acme'') (u ''report.pdf'') empty_db))) = 1"
    by simp
  show ?thesis by (intro conjI) (rule a, rule b, rule d)
qed





lemma upper_cp_ascii:
  "c < 128 \<Longrightarrow> upper_cp T c = [if 97 \<le> c \<and> c \<le> 122 then c - 32 else c]"
  by (simp add: upper_cp_def upper_latin1_def)















lemma name_ids_iff:
  "i \<in> set (name_ids s db) \<longleftrightarrow> i < length (db_nodes db) \<and> node_named s (db_nodes db ! i)"
  by (auto simp: name_ids_def)

lemma stamp_node_named: "node_named s (stamp_node source now n) = node_named s n"
  by (simp add: node_named_def stamp_node_def map_of_dict_set u_def)

lemma execute_keeps_names:
  assumes "i \<in> set (name_ids s db)"
  shows "i \<in> set (name_ids s (execute stmt db))"
proof (cases stmt)
  case (MergeNode label name source)
  from assms have i: "i < length (db_nodes db)" and n: "node_named s (db_nodes db ! i)"
    by (simp_all add: name_ids_iff)
  show ?thesis
  proof (cases "filter (node_keyed label name) (db_nodes db) = []")
    case True
    with i n MergeNode show ?thesis
      by (simp add: name_ids_iff merge_node_def Let_def nth_append)
  next
    case False
    with i n MergeNode show ?thesis
      by (simp add: name_ids_iff merge_node_def Let_def stamp_node_named)
  qed
next
  case (MergeRelation source rtype target)
  with assms show ?thesis by (simp add: name_ids_iff merge_relation_def)
qed












end
